theory Spec2Isabelle
  imports Main "HOL-Library.Sublist" "HOL-Library.AList" "HOL-Library.Multiset"
begin

section \<open>Trigger statement builder\<close>

text \<open>
  Table and column names are JavaScript strings; they are modelled as \<open>string\<close>,
  lists of characters that stand for the code units below \<open>0x100\<close>. A line break of a
  template literal is the character \<open>CHR 0x0A\<close>.
\<close>

abbreviation (input) nl :: string where
  "nl \<equiv> [CHR 0x0A]"

text \<open>
  Modelled from the spec: \<open>utils/buildTriggerName\<close> is imported by
  \<open>sequelize-paranoid-delete.ts\<close> but its file is not among the sources. The spec
  gives its result as \<open>on_<parent>_delete_update_<child>\<close>, the same text that
  \<open>createParanoidDeleteTriggerStatement\<close> of \<open>index.ts\<close> writes after
  \<open>CREATE TRIGGER\<close>.
\<close>

definition buildTriggerName :: "string \<Rightarrow> string \<Rightarrow> string" where
  "buildTriggerName parentTable childTable =
     ''on_'' @ parentTable @ ''_delete_update_'' @ childTable"

text \<open>
  \<open>createParanoidDeleteTriggerStatement\<close> of \<open>index.ts\<close>: the template literal,
  line by line, with its indentation and its leading and trailing line breaks.
\<close>

definition createParanoidDeleteTriggerStatement ::
  "string \<Rightarrow> string \<Rightarrow> string \<Rightarrow> string \<Rightarrow> string" where
  "createParanoidDeleteTriggerStatement primaryTable primaryKey foreignTable foreignKey =
     nl @
     ''  CREATE TRIGGER on_'' @ primaryTable @ ''_delete_update_'' @ foreignTable @ nl @
     ''  AFTER UPDATE'' @ nl @
     ''  ON '' @ primaryTable @ '' FOR EACH ROW'' @ nl @
     ''  BEGIN'' @ nl @
     ''    IF OLD.deletedAt IS NULL AND NEW.deletedAt IS NOT NULL THEN'' @ nl @
     ''      UPDATE '' @ foreignTable @ nl @
     ''        SET '' @ foreignTable @ ''.deletedAt = NOW()'' @ nl @
     ''      WHERE '' @ foreignTable @ ''.'' @ foreignKey @ '' = NEW.'' @ primaryKey @ '';'' @ nl @
     ''    END IF;'' @ nl @
     ''  END;'' @ nl"

text \<open>
  \<open>String.prototype.includes\<close>: does \<open>t\<close> occur in \<open>s\<close> as a contiguous piece?
\<close>

fun js_includes :: "string \<Rightarrow> string \<Rightarrow> bool" where
  "js_includes [] t = (t = [])"
| "js_includes (x # xs) t = (prefix t (x # xs) \<or> js_includes xs t)"

text \<open>
  The words of an SQL text: the maximal runs of characters other than blanks and line
  breaks. \<open>sql_words_aux w s\<close> scans \<open>s\<close> with the word \<open>w\<close> begun so far.
\<close>

definition blank :: "char \<Rightarrow> bool" where
  "blank c \<longleftrightarrow> c = CHR '' '' \<or> c = CHR 0x0A"

fun sql_words_aux :: "string \<Rightarrow> string \<Rightarrow> string list" where
  "sql_words_aux w [] = (if w = [] then [] else [w])"
| "sql_words_aux w (c # s) =
     (if blank c then (if w = [] then sql_words_aux [] s else w # sql_words_aux [] s)
      else sql_words_aux (w @ [c]) s)"

definition sql_words :: "string \<Rightarrow> string list" where
  "sql_words s = sql_words_aux [] s"

definition sql_identifier :: "string \<Rightarrow> bool" where
  "sql_identifier s \<longleftrightarrow> s \<noteq> [] \<and> list_all (\<lambda>c. \<not> blank c) s"


section \<open>Migration interceptor (index.ts)\<close>

subsection \<open>Column specifications\<close>

text \<open>
  The value of a rejected promise (or a thrown value), and the value a promise of the
  migration interface resolves with. Both are opaque to the interceptor.
\<close>

type_synonym js_error = string
type_synonym js_result = string

text \<open>
  The values the interceptor reads are modelled as far as the source's own type
  assertions let them range: \<open>references!\<close> (a \<open>references\<close> field that is present is
  not \<open>undefined\<close>), \<open>references!.model as string\<close> (its model is a table name) and
  \<open>addColumnArgs[0] as string\<close>, \<open>newTable as string\<close> (tables are given by name).

  The \<open>references\<close> field of a column specification is then a table name or an object
  \<open>{ model, key? }\<close>; \<open>None\<close> is an absent (or nullish) \<open>key\<close>.
\<close>

datatype references_field =
  TableReference string
| ModelReference string "string option"

text \<open>
  \<open>ModelAttributeColumnOptions\<close>: the fields the interceptor reads, and the data type.
  \<open>None\<close> is an absent field.
\<close>

record ModelAttributeColumnOptions =
  dataType :: string
  onDelete :: "string option"
  references :: "references_field option"

text \<open>
  \<open>AddColumnAttributeParameter = ModelAttributeColumnOptions | DataType\<close>. A bare data
  type is a string or a class, neither an object with an \<open>onDelete\<close> field.
\<close>

datatype attribute =
  DataType string
| ColumnOptions ModelAttributeColumnOptions

record PrimaryTableProps =
  primaryTable :: string
  primaryKey :: string

text \<open>
  \<open>getPrimaryTableProps\<close>. \<open>getPrimaryKey?.(t) ?? 'id'\<close> is the resolver's result where a
  resolver was passed and \<open>'id'\<close> otherwise; \<open>null\<close> is \<open>None\<close>.
\<close>

definition getPrimaryTableProps ::
  "attribute \<Rightarrow> (string \<Rightarrow> string) option \<Rightarrow> PrimaryTableProps option" where
  "getPrimaryTableProps options getPrimaryKey =
     (case options of
        DataType _ \<Rightarrow> None
      | ColumnOptions opts \<Rightarrow>
          if onDelete opts = Some ''PARANOID CASCADE'' then
            (case references opts of
               None \<Rightarrow> None
             | Some (TableReference table) \<Rightarrow>
                 Some \<lparr>primaryTable = table,
                       primaryKey = (case getPrimaryKey of Some f \<Rightarrow> f table | None \<Rightarrow> ''id'')\<rparr>
             | Some (ModelReference model k) \<Rightarrow>
                 Some \<lparr>primaryTable = model,
                       primaryKey =
                         (case k of
                            Some explicit \<Rightarrow> explicit
                          | None \<Rightarrow> (case getPrimaryKey of Some f \<Rightarrow> f model | None \<Rightarrow> ''id''))\<rparr>)
          else None)"

text \<open>
  The cascade annotation as the spec words it (section 3), to compare
  \<open>getPrimaryTableProps\<close> with: a column specification carries it when its \<open>onDelete\<close>
  is \<open>PARANOID CASCADE\<close> and it has a \<open>references\<close> field, which names the parent
  table; the parent key is the explicit key, else the resolver's result for the parent
  table, else \<open>id\<close>.
\<close>

definition spec_cascadeAnnotation :: "attribute \<Rightarrow> references_field option" where
  "spec_cascadeAnnotation spec =
     (case spec of
        DataType _ \<Rightarrow> None
      | ColumnOptions opts \<Rightarrow>
          if onDelete opts = Some ''PARANOID CASCADE'' then references opts else None)"

definition spec_parentTable :: "references_field \<Rightarrow> string" where
  "spec_parentTable r = (case r of TableReference table \<Rightarrow> table | ModelReference model _ \<Rightarrow> model)"

definition spec_explicitKey :: "references_field \<Rightarrow> string option" where
  "spec_explicitKey r = (case r of TableReference _ \<Rightarrow> None | ModelReference _ k \<Rightarrow> k)"

definition spec_parentKey :: "(string \<Rightarrow> string) option \<Rightarrow> references_field \<Rightarrow> string" where
  "spec_parentKey resolver r =
     (case spec_explicitKey r of
        Some k \<Rightarrow> k
      | None \<Rightarrow> (case resolver of Some f \<Rightarrow> f (spec_parentTable r) | None \<Rightarrow> ''id''))"

subsection \<open>The wrapped interface\<close>

text \<open>
  The database is a state of type \<open>'db\<close>. \<open>sequelize.query(sql)\<close> settles with a result
  or an error and leaves a new state; \<open>sequelize.query(sql, {type: SELECT})\<close> reads the
  state only. Statements that are passed to \<open>sequelize.query\<close> together, before any of
  them is awaited, complete in an order that the database decides:
  \<open>completionRank sq batch i\<close> is the rank of the \<open>i\<close>-th statement of the batch, and the
  statements complete by ascending rank.
\<close>

record 'db Sequelize =
  query :: "string \<Rightarrow> 'db \<Rightarrow> (js_error + js_result) \<times> 'db"
  select :: "string \<Rightarrow> 'db \<Rightarrow> js_error + js_result"
  completionRank :: "string list \<Rightarrow> nat \<Rightarrow> nat"

text \<open>
  The arguments of a call, as the source types them
  (\<open>CreateTableParameters | AddColumnParameters\<close>), and the arguments of any other
  operation. Arguments after the ones listed are not read by the interceptor.
\<close>

datatype arguments =
  AddColumnParameters string string attribute
| CreateTableParameters string "(string \<times> attribute) list"
| OtherParameters "string list"

text \<open>
  \<open>methods target command args\<close> is \<open>Reflect.apply(target[command], target, args)\<close>,
  run to the end: how its promise settles, and the state it leaves.
\<close>

record 'db QueryInterface =
  sequelize :: "'db Sequelize"
  methods :: "string \<Rightarrow> arguments \<Rightarrow> 'db \<Rightarrow> (js_error + js_result) \<times> 'db"

record Options =
  getPrimaryKey :: "(string \<Rightarrow> string) option"

text \<open>\<open>options?.getPrimaryKey\<close>\<close>

definition optionalGetPrimaryKey :: "Options option \<Rightarrow> (string \<Rightarrow> string) option" where
  "optionalGetPrimaryKey options =
     (case options of None \<Rightarrow> None | Some opts \<Rightarrow> getPrimaryKey opts)"

subsection \<open>Promises\<close>

text \<open>
  A call of the decorated interface ends with: how its promise settled, the statements
  the interceptor passed to \<open>target.sequelize.query\<close> (in the order of the calls), and
  the state of the database when the promise settled.
\<close>

type_synonym 'db outcome = "(js_error + js_result) \<times> string list \<times> 'db"

text \<open>
  The order in which the statements of a batch complete: their positions sorted by
  rank.
\<close>

definition completionOrder :: "'db Sequelize \<Rightarrow> string list \<Rightarrow> string list" where
  "completionOrder sq statements =
     map (\<lambda>i. statements ! i)
       (sort_key (completionRank sq statements) [0..<length statements])"

text \<open>
  \<open>Promise.all\<close> over the queries of a batch, given in their order of completion. It
  resolves when the last query has resolved, and rejects as soon as one query rejects:
  the queries after that one are still pending then, and their effects are not in the
  state the caller sees when the promise settles. The result is the rejection (if
  any), the statements still pending, and the state at that moment.
\<close>

fun settle_all ::
  "'db Sequelize \<Rightarrow> string list \<Rightarrow> 'db \<Rightarrow> js_error option \<times> string list \<times> 'db" where
  "settle_all sq [] db = (None, [], db)"
| "settle_all sq (statement # later) db =
     (case query sq statement db of
        (Inl e, db1) \<Rightarrow> (Some e, later, db1)
      | (Inr _, db1) \<Rightarrow> settle_all sq later db1)"

text \<open>
  Statements that complete one after the other, each on the state the one before left:
  their results and the last state. (Not a function of the source; the theorems use it
  to say what has completed.)
\<close>

fun complete_each ::
  "'db Sequelize \<Rightarrow> string list \<Rightarrow> 'db \<Rightarrow> (js_error + js_result) list \<times> 'db" where
  "complete_each sq [] db = ([], db)"
| "complete_each sq (statement # later) db =
     (let (r, db1) = query sq statement db;
          (rs, db2) = complete_each sq later db1
      in (r # rs, db2))"

subsection \<open>The decorator\<close>

text \<open>
  The statements of the create-table path: \<open>Object.entries(columns)\<close>, mapped to the
  column name and its \<open>getPrimaryTableProps\<close>, filtered on \<open>!== null\<close>, mapped to the
  statement (\<open>the\<close> is the source's \<open>primaryTableProps!\<close>).
\<close>

definition createTableStatements ::
  "(string \<Rightarrow> string) option \<Rightarrow> string \<Rightarrow> (string \<times> attribute) list \<Rightarrow> string list" where
  "createTableStatements resolver newTable columns =
     map (\<lambda>(foreignKey, primaryTableProps).
            createParanoidDeleteTriggerStatement
              (primaryTable (the primaryTableProps)) (primaryKey (the primaryTableProps))
              newTable foreignKey)
       (filter (\<lambda>(columnName, primaryTableProps). primaryTableProps \<noteq> None)
          (map (\<lambda>(columnName, columnDescription).
                  (columnName, getPrimaryTableProps columnDescription resolver))
             columns))"

text \<open>
  The function the proxy returns for a property \<open>command\<close>. The underlying method is
  called first (\<open>commandPromise\<close>); \<open>await commandPromise\<close> rethrows its rejection.
  \<open>if (primaryTable)\<close> is false for the empty string and when
  \<open>getPrimaryTableProps\<close> gave \<open>null\<close>. The create-table path calls
  \<open>target.sequelize.query\<close> once per statement, all calls made before
  \<open>Promise.all\<close> is awaited: every statement is issued, whatever becomes of the
  others. A call of \<open>addColumn\<close> or \<open>createTable\<close> whose
  arguments are not of that operation's type is ill-typed in the source; the model
  returns the underlying promise for it.
\<close>

definition proxied ::
  "'db QueryInterface \<Rightarrow> Options option \<Rightarrow> string \<Rightarrow> arguments \<Rightarrow> 'db \<Rightarrow> 'db outcome" where
  "proxied target options command args db =
     (let (commandPromise, db1) = methods target command args db;
          returnCommandPromise = (commandPromise, [], db1)
      in
        if command = ''addColumn'' then
          (case args of
             AddColumnParameters foreignTable foreignKey columnSpec \<Rightarrow>
               (case getPrimaryTableProps columnSpec (optionalGetPrimaryKey options) of
                  None \<Rightarrow> returnCommandPromise
                | Some props \<Rightarrow>
                    if primaryTable props \<noteq> [] then
                      (case commandPromise of
                         Inl e \<Rightarrow> (Inl e, [], db1)
                       | Inr commandResult \<Rightarrow>
                           (let statement =
                                  createParanoidDeleteTriggerStatement
                                    (primaryTable props) (primaryKey props) foreignTable foreignKey;
                                (r, db2) = query (sequelize target) statement db1
                            in case r of
                                 Inl e \<Rightarrow> (Inl e, [statement], db2)
                               | Inr _ \<Rightarrow> (Inr commandResult, [statement], db2)))
                    else returnCommandPromise)
           | _ \<Rightarrow> returnCommandPromise)
        else if command = ''createTable'' then
          (case args of
             CreateTableParameters newTable columns \<Rightarrow>
               (case commandPromise of
                  Inl e \<Rightarrow> (Inl e, [], db1)
                | Inr commandResult \<Rightarrow>
                    (let statements =
                           createTableStatements (optionalGetPrimaryKey options) newTable columns;
                         (rejection, pending, db2) =
                           settle_all (sequelize target)
                             (completionOrder (sequelize target) statements) db1
                     in case rejection of
                          Some e \<Rightarrow> (Inl e, statements, db2)
                        | None \<Rightarrow> (Inr commandResult, statements, db2)))
           | _ \<Rightarrow> returnCommandPromise)
        else returnCommandPromise)"

text \<open>
  What the proxy's \<open>get\<close> trap returns: the target's own \<open>sequelize\<close> property, or the
  function above.
\<close>

datatype 'db property =
  Handle "'db Sequelize"
| Operation "arguments \<Rightarrow> 'db \<Rightarrow> 'db outcome"

definition queryInterfaceDecorator ::
  "'db QueryInterface \<Rightarrow> Options option \<Rightarrow> string \<Rightarrow> 'db property" where
  "queryInterfaceDecorator queryInterface options propKey =
     (if propKey = ''sequelize'' then Handle (sequelize queryInterface)
      else Operation (proxied queryInterface options propKey))"

subsection \<open>Example interfaces\<close>

text \<open>
  A database that records every operation and statement it is given, in order of
  completion; it completes a batch in the order of the calls. The second database
  rejects every statement. The third completes a batch in the reverse order of the
  calls, and the fourth does so too and rejects the statements about \<open>warehouses\<close>. The
  interfaces: one that succeeds throughout, one whose database rejects every
  statement, one whose migration operations fail, and one for each of the two
  reversing databases.
\<close>

definition recordingSequelize :: "string list Sequelize" where
  "recordingSequelize =
     \<lparr>query = (\<lambda>statement db. (Inr ''ok'', db @ [statement])),
      select = (\<lambda>statement db. Inr ''0''),
      completionRank = (\<lambda>batch i. i)\<rparr>"

definition rejectingSequelize :: "string list Sequelize" where
  "rejectingSequelize =
     \<lparr>query = (\<lambda>statement db. (Inl ''ER_TRG_ALREADY_EXISTS'', db)),
      select = (\<lambda>statement db. Inl ''ER_TRG_ALREADY_EXISTS''),
      completionRank = (\<lambda>batch i. i)\<rparr>"

definition reversingSequelize :: "string list Sequelize" where
  "reversingSequelize =
     \<lparr>query = (\<lambda>statement db. (Inr ''ok'', db @ [statement])),
      select = (\<lambda>statement db. Inr ''0''),
      completionRank = (\<lambda>batch i. length batch - i)\<rparr>"

definition warehouseRejectingSequelize :: "string list Sequelize" where
  "warehouseRejectingSequelize =
     \<lparr>query = (\<lambda>statement db.
         if js_includes statement ''warehouses'' then (Inl ''ER_NO_SUCH_TABLE'', db)
         else (Inr ''ok'', db @ [statement])),
      select = (\<lambda>statement db. Inr ''0''),
      completionRank = (\<lambda>batch i. length batch - i)\<rparr>"

definition reversingInterface :: "string list QueryInterface" where
  "reversingInterface =
     \<lparr>sequelize = reversingSequelize,
      methods = (\<lambda>command args db. (Inr ''done'', db @ [command]))\<rparr>"

definition warehouseRejectingInterface :: "string list QueryInterface" where
  "warehouseRejectingInterface =
     \<lparr>sequelize = warehouseRejectingSequelize,
      methods = (\<lambda>command args db. (Inr ''done'', db @ [command]))\<rparr>"

definition recordingInterface :: "string list QueryInterface" where
  "recordingInterface =
     \<lparr>sequelize = recordingSequelize,
      methods = (\<lambda>command args db. (Inr ''done'', db @ [command]))\<rparr>"

definition rejectingInterface :: "string list QueryInterface" where
  "rejectingInterface =
     \<lparr>sequelize = rejectingSequelize,
      methods = (\<lambda>command args db. (Inr ''done'', db @ [command]))\<rparr>"

definition failingInterface :: "string list QueryInterface" where
  "failingInterface =
     \<lparr>sequelize = recordingSequelize,
      methods = (\<lambda>command args db. (Inl ''ER_NO_SUCH_TABLE'', db))\<rparr>"

definition cascadeTo :: "string \<Rightarrow> attribute" where
  "cascadeTo table =
     ColumnOptions \<lparr>dataType = ''INTEGER'', onDelete = Some ''PARANOID CASCADE'',
                    references = Some (TableReference table)\<rparr>"

definition cascadeWithoutReferences :: attribute where
  "cascadeWithoutReferences =
     ColumnOptions \<lparr>dataType = ''INTEGER'', onDelete = Some ''PARANOID CASCADE'',
                    references = None\<rparr>"

section \<open>Interactive session (sequelize-paranoid-delete.ts)\<close>

subsection \<open>Relations and their discovery\<close>

record ForeignKeyFields =
  tableName :: string
  columnName :: string
  referencedTableName :: string
  referencedColumnName :: string

text \<open>
  \<open>dedupe\<close> uses the JavaScript object \<open>uniques\<close> as a dictionary. The model keeps
  its own properties as a list of keys and values in the order of their creation.

  A key is an array index when it is the canonical decimal text of a number below
  \<open>2^32 - 1\<close>: \<open>0\<close>, or digits that do not start with \<open>0\<close>.
\<close>

definition decimal_digit :: "char \<Rightarrow> bool" where
  "decimal_digit c \<longleftrightarrow> 48 \<le> (of_char c :: int) \<and> (of_char c :: int) \<le> 57"

definition decimal_value :: "string \<Rightarrow> int" where
  "decimal_value s = foldl (\<lambda>n c. 10 * n + (of_char c - 48)) 0 s"

definition array_index :: "string \<Rightarrow> int option" where
  "array_index k =
     (if k = [] \<or> \<not> list_all decimal_digit k then None
      else if hd k = CHR ''0'' \<and> k \<noteq> ''0'' then None
      else if decimal_value k < 4294967295 then Some (decimal_value k)
      else None)"

text \<open>
  The assignment \<open>uniques[k] = item\<close>: it replaces the value of a key that is already
  there, in its place, and adds a new key after all others. The key \<open>__proto__\<close> is
  the exception: the assignment calls the setter of \<open>Object.prototype\<close> and makes no
  property.
\<close>

definition assign :: "string \<Rightarrow> 'a \<Rightarrow> (string \<times> 'a) list \<Rightarrow> (string \<times> 'a) list" where
  "assign k item properties =
     (if k = ''__proto__'' then properties else AList.update k item properties)"

text \<open>
  \<open>Object.values\<close>: the values of the keys that are array indices, by ascending index,
  then the values of the other keys in the order of their creation.
\<close>

definition object_values :: "(string \<times> 'a) list \<Rightarrow> 'a list" where
  "object_values properties =
     map snd
       (sort_key (\<lambda>(k, v). the (array_index k))
          (filter (\<lambda>(k, v). array_index k \<noteq> None) properties)
        @ filter (\<lambda>(k, v). array_index k = None) properties)"

text \<open>\<open>uniques_of\<close> is the object \<open>uniques\<close> after the \<open>forEach\<close>.\<close>

definition uniques_of :: "'a list \<Rightarrow> ('a \<Rightarrow> string) \<Rightarrow> (string \<times> 'a) list" where
  "uniques_of array hasher =
     foldl (\<lambda>uniques item. assign (hasher item) item uniques) [] array"

definition dedupe :: "'a list \<Rightarrow> ('a \<Rightarrow> string) \<Rightarrow> 'a list" where
  "dedupe array hasher = object_values (uniques_of array hasher)"

text \<open>
  The functions \<open>sequelize-paranoid-delete.ts\<close> imports from \<open>./utils\<close>, whose files are
  not among the sources, are parameters of the model (all but \<open>buildTriggerName\<close>,
  modelled above). The two introspection queries read the database and may fail;
  \<open>unwrapSelectOneValue\<close> stands for the truth value \<open>!!unwrapSelectOneValue(rows)\<close>.
\<close>

record 'db utils =
  buildCreateTriggerStatement :: "string \<Rightarrow> string \<Rightarrow> string \<Rightarrow> string \<Rightarrow> string"
  buildExistTriggerStatement :: "string \<Rightarrow> string \<Rightarrow> string"
  unwrapSelectOneValue :: "js_result \<Rightarrow> bool"
  getSoftDeleteTableNames :: "string \<Rightarrow> 'db \<Rightarrow> js_error + string list"
  getForeignKeysTableRelations ::
    "string list \<Rightarrow> string \<Rightarrow> 'db \<Rightarrow> js_error + ForeignKeyFields list"

text \<open>
  The fields of the configuration (\<open>Options\<close> in the source) that the session reads
  after connecting; \<open>None\<close> is \<open>null\<close>.
\<close>

record SessionOptions =
  schema :: string
  allowListTables :: "string list option"
  denyListTables :: "string list option"
  tenantColumns :: "string list option"

text \<open>
  The hasher \<open>getTableRelations\<close> passes to \<open>dedupe\<close>, and the pair of tables of a
  relation.
\<close>

definition relationHash :: "ForeignKeyFields \<Rightarrow> string" where
  "relationHash relation = buildTriggerName (referencedTableName relation) (tableName relation)"

definition relationPair :: "ForeignKeyFields \<Rightarrow> string \<times> string" where
  "relationPair relation = (referencedTableName relation, tableName relation)"

definition getTableRelations ::
  "'db utils \<Rightarrow> SessionOptions \<Rightarrow> 'db \<Rightarrow> js_error + ForeignKeyFields list" where
  "getTableRelations u options db =
     (case getSoftDeleteTableNames u (schema options) db of
        Inl e \<Rightarrow> Inl e
      | Inr names \<Rightarrow>
          (let softDeleteTableNames =
                 filter (\<lambda>table.
                           case allowListTables options of
                             Some allow \<Rightarrow> table \<in> set allow
                           | None \<Rightarrow>
                               (case denyListTables options of
                                  Some deny \<Rightarrow> table \<notin> set deny
                                | None \<Rightarrow> True))
                   names
           in case getForeignKeysTableRelations u softDeleteTableNames (schema options) db of
                Inl e \<Rightarrow> Inl e
              | Inr relations \<Rightarrow>
                  Inr (dedupe
                         (filter (\<lambda>relation.
                                    case tenantColumns options of
                                      Some tenant \<Rightarrow> referencedColumnName relation \<notin> set tenant
                                    | None \<Rightarrow> True)
                            relations)
                         relationHash)))"

subsection \<open>The session\<close>

text \<open>
  What the session does that can be seen from outside, in order: console messages,
  prompts written by \<open>rl.prompt()\<close>, and statements passed to \<open>sequelize.query\<close>.
\<close>

datatype event =
  Info string
| Warn string
| Error string
| Prompt string
| Sql string

text \<open>
  The variables of \<open>up\<close> and the readline interface: the pending queue, the
  \<open>scanned\<close> flag, the prompt text, whether the interface was closed (the \<open>close\<close>
  handler then prints its message and exits with status 0), and the events so far.
\<close>

record session =
  tableRelations :: "ForeignKeyFields list"
  scanned :: bool
  prompt :: string
  closed :: bool
  events :: "event list"

definition console :: "event \<Rightarrow> session \<Rightarrow> session" where
  "console e st = st\<lparr>events := events st @ [e]\<rparr>"

definition rl_prompt :: "session \<Rightarrow> session" where
  "rl_prompt st = st\<lparr>events := events st @ [Prompt (prompt st)]\<rparr>"

definition rl_close :: "session \<Rightarrow> session" where
  "rl_close st =
     st\<lparr>closed := True,
        events := events st @ [Info ''There are no more relations to process. Exiting...'']\<rparr>"

definition existTriggerStatement :: "'db utils \<Rightarrow> ForeignKeyFields \<Rightarrow> string" where
  "existTriggerStatement u relation =
     buildExistTriggerStatement u (referencedTableName relation) (tableName relation)"

text \<open>
  \<open>triggerExists\<close> of \<open>getNextRelation\<close>: the existence check of a relation, a query of
  type \<open>SELECT\<close>.
\<close>

definition triggerExists ::
  "'db utils \<Rightarrow> 'db Sequelize \<Rightarrow> 'db \<Rightarrow> ForeignKeyFields \<Rightarrow> js_error + bool" where
  "triggerExists u sq db relation =
     (case select sq (existTriggerStatement u relation) db of
        Inl e \<Rightarrow> Inl e
      | Inr rows \<Rightarrow> Inr (unwrapSelectOneValue u rows))"

text \<open>
  \<open>getNextRelation\<close> returns its result, the queue as its \<open>shift\<close> calls leave it (the
  array is the one \<open>up\<close> holds), and the statements it issued.
\<close>

fun getNextRelation ::
  "'db utils \<Rightarrow> 'db Sequelize \<Rightarrow> 'db \<Rightarrow> ForeignKeyFields list \<Rightarrow>
     (js_error + ForeignKeyFields option) \<times> ForeignKeyFields list \<times> string list" where
  "getNextRelation u sq db [] = (Inr None, [], [])"
| "getNextRelation u sq db (relation # rest) =
     (case triggerExists u sq db relation of
        Inl e \<Rightarrow> (Inl e, relation # rest, [existTriggerStatement u relation])
      | Inr exists \<Rightarrow>
          if exists then
            (case getNextRelation u sq db rest of
               (r, queue, issued) \<Rightarrow> (r, queue, existTriggerStatement u relation # issued))
          else (Inr (Some relation), relation # rest, [existTriggerStatement u relation]))"

definition relationPrompt :: "ForeignKeyFields \<Rightarrow> string" where
  "relationPrompt relation =
     ''What do you want to do with '' @ tableName relation @ '' when ''
       @ referencedTableName relation @ '' is deleted [c,na,sn,st,s,q,?]? ''"

text \<open>
  \<open>askForNextRelation\<close>. \<open>Inl e\<close>: the promise rejects with \<open>e\<close> (no caller handles
  it).
\<close>

definition askForNextRelation ::
  "'db utils \<Rightarrow> 'db Sequelize \<Rightarrow> 'db \<Rightarrow> session \<Rightarrow> js_error + session" where
  "askForNextRelation u sq db st =
     (case getNextRelation u sq db (tableRelations st) of
        (r, queue, issued) \<Rightarrow>
          (let st1 = st\<lparr>tableRelations := queue, events := events st @ map Sql issued\<rparr>
           in case r of
                Inl e \<Rightarrow> Inl e
              | Inr None \<Rightarrow> Inr (rl_close st1)
              | Inr (Some relation) \<Rightarrow>
                  Inr (rl_prompt (st1\<lparr>prompt := relationPrompt relation\<rparr>))))"

text \<open>
  \<open>String.prototype.trim\<close> strips white space and line terminators from both ends.
  Among the code units below \<open>0x100\<close> these are the tab, the line feed, the vertical
  tab, the form feed, the carriage return, the space and the no-break space.
\<close>

definition js_white_space :: "char \<Rightarrow> bool" where
  "js_white_space c \<longleftrightarrow>
     c \<in> {CHR 0x09, CHR 0x0A, CHR 0x0B, CHR 0x0C, CHR 0x0D, CHR '' '', CHR 0xA0}"

definition trim :: "string \<Rightarrow> string" where
  "trim s = rev (dropWhile js_white_space (rev (dropWhile js_white_space s)))"

definition createdMessage :: "ForeignKeyFields \<Rightarrow> string" where
  "createdMessage relation =
     ''Created trigger for '' @ tableName relation @ '' when ''
       @ referencedTableName relation @ '' is marked as deleted.''"

text \<open>
  The \<open>line\<close> handler of \<open>up\<close>, one call run to its end (lines that arrive while a call
  is suspended are not modelled). In the \<open>c\<close> case the \<open>try\<close> block fails either in the
  destructuring of \<open>tableRelations[0]\<close>, when the queue is empty, or in the query; the
  \<open>catch\<close> block logs the error, and the \<open>finally\<close> block shifts the queue and asks for
  the next relation. \<open>tl\<close> is \<open>shift\<close>, which leaves an empty array empty.
\<close>

definition on_line ::
  "'db utils \<Rightarrow> SessionOptions \<Rightarrow> 'db Sequelize \<Rightarrow> string \<Rightarrow> 'db \<Rightarrow> session \<Rightarrow>
     (js_error + session) \<times> 'db" where
  "on_line u options sq input db st =
     (let invalid = (Inr (rl_prompt (console (Error ''Invalid option.'') st)), db);
          reserved =
            (Inr (rl_prompt
                    (console (if scanned st then Warn ''Not implemented yet.''
                              else Error ''Invalid option.'') st)), db);
          choice = trim input
      in
        if choice = ''y'' then
          (if scanned st then invalid
           else
             (case getTableRelations u options db of
                Inl e \<Rightarrow> (Inl e, db)
              | Inr relations \<Rightarrow>
                  (askForNextRelation u sq db
                     (st\<lparr>tableRelations := relations, scanned := True\<rparr>), db)))
        else if choice = ''c'' then
          (if \<not> scanned st then invalid
           else
             (case tableRelations st of
                [] \<Rightarrow>
                  (askForNextRelation u sq db
                     (console (Error ''TypeError: Cannot destructure property of undefined'') st),
                   db)
              | relation # rest \<Rightarrow>
                  (let triggerStatement =
                         buildCreateTriggerStatement u
                           (referencedTableName relation) (referencedColumnName relation)
                           (tableName relation) (columnName relation);
                       (r, db1) = query sq triggerStatement db;
                       report =
                         (case r of
                            Inr _ \<Rightarrow> Info (createdMessage relation)
                          | Inl e \<Rightarrow> Error e)
                   in (askForNextRelation u sq db1
                         (st\<lparr>tableRelations := rest,
                             events := events st @ [Sql triggerStatement, report]\<rparr>),
                       db1))))
        else if choice = ''na'' \<or> choice = ''sn'' \<or> choice = ''st'' then reserved
        else if choice = ''s'' then
          (if \<not> scanned st then invalid
           else
             (askForNextRelation u sq db (st\<lparr>tableRelations := tl (tableRelations st)\<rparr>), db))
        else if choice = ''?'' then
          (if \<not> scanned st then invalid
           else
             (Inr (rl_prompt
                     (st\<lparr>events := events st @
                          [Info ''c - cascade.'', Info ''na - no action.'', Info ''sn - set null.'',
                           Info ''st - set default.'', Info ''s - skip.'']\<rparr>)),
              db))
        else if choice = ''n'' then
          (if scanned st then invalid else (Inr (rl_close st), db))
        else if choice = ''q'' then
          (if \<not> scanned st then invalid else (Inr (rl_close st), db))
        else invalid)"

text \<open>The session as \<open>up\<close> starts it: nothing scanned, the first prompt written.\<close>

definition up :: session where
  "up =
     \<lparr>tableRelations = [], scanned = False,
      prompt = ''Database will be scanned for tables with deletedAt column. Do you want to continue? (y/n) '',
      closed = False,
      events = [Prompt ''Database will be scanned for tables with deletedAt column. Do you want to continue? (y/n) '']\<rparr>"

text \<open>
  The lines of the terminal, one handler call after the other, up to the close of the
  interface or a rejected handler.
\<close>

fun on_lines ::
  "'db utils \<Rightarrow> SessionOptions \<Rightarrow> 'db Sequelize \<Rightarrow> string list \<Rightarrow> 'db \<Rightarrow> session \<Rightarrow>
     (js_error + session) \<times> 'db" where
  "on_lines u options sq [] db st = (Inr st, db)"
| "on_lines u options sq (input # inputs) db st =
     (if closed st then (Inr st, db)
      else
        (case on_line u options sq input db st of
           (Inl e, db1) \<Rightarrow> (Inl e, db1)
         | (Inr st1, db1) \<Rightarrow> on_lines u options sq inputs db1 st1))"

subsection \<open>An example database\<close>

text \<open>
  A database whose state is the list of the triggers installed, by name. It creates a
  trigger unless one of that name exists, and answers the existence check of a name
  with \<open>1\<close> or \<open>0\<close>. Its schema has the tables \<open>customers\<close> and \<open>orders\<close>, with the
  foreign key \<open>orders.customer_id\<close> to \<open>customers.id\<close>.
\<close>

definition triggerSequelize :: "string list Sequelize" where
  "triggerSequelize =
     \<lparr>query = (\<lambda>statement db.
         if take 7 statement = ''CREATE '' then
           (if drop 7 statement \<in> set db then (Inl ''ER_TRG_ALREADY_EXISTS'', db)
            else (Inr ''ok'', db @ [drop 7 statement]))
         else (Inl ''ER_PARSE_ERROR'', db)),
      select = (\<lambda>statement db.
         if take 7 statement = ''EXISTS '' then
           Inr (if drop 7 statement \<in> set db then ''1'' else ''0'')
         else Inl ''ER_PARSE_ERROR''),
      completionRank = (\<lambda>batch i. i)\<rparr>"

definition ordersToCustomers :: ForeignKeyFields where
  "ordersToCustomers =
     \<lparr>tableName = ''orders'', columnName = ''customer_id'',
      referencedTableName = ''customers'', referencedColumnName = ''id''\<rparr>"

definition itemsToOrders :: ForeignKeyFields where
  "itemsToOrders =
     \<lparr>tableName = ''items'', columnName = ''order_id'',
      referencedTableName = ''orders'', referencedColumnName = ''id''\<rparr>"

definition triggerUtils :: "string list utils" where
  "triggerUtils =
     \<lparr>buildCreateTriggerStatement = (\<lambda>parentTable parentKey childTable childKey.
         ''CREATE '' @ buildTriggerName parentTable childTable),
      buildExistTriggerStatement = (\<lambda>parentTable childTable.
         ''EXISTS '' @ buildTriggerName parentTable childTable),
      unwrapSelectOneValue = (\<lambda>rows. rows = ''1''),
      getSoftDeleteTableNames = (\<lambda>schema db. Inr [''customers'', ''orders'']),
      getForeignKeysTableRelations = (\<lambda>tables schema db. Inr [ordersToCustomers])\<rparr>"

definition noFilter :: SessionOptions where
  "noFilter =
     \<lparr>schema = ''shop'', allowListTables = None, denyListTables = None, tenantColumns = None\<rparr>"

text \<open>
  Two relations with different pairs of tables and the same trigger name.
\<close>

definition collidingFirst :: ForeignKeyFields where
  "collidingFirst =
     \<lparr>tableName = ''c'', columnName = ''x_id'',
      referencedTableName = ''a_delete_update_b'', referencedColumnName = ''id''\<rparr>"

definition collidingSecond :: ForeignKeyFields where
  "collidingSecond =
     \<lparr>tableName = ''b_delete_update_c'', columnName = ''a_id'',
      referencedTableName = ''a'', referencedColumnName = ''id''\<rparr>"
section \<open>Properties of the trigger statement builder\<close>

lemma js_includes_iff: "js_includes s t \<longleftrightarrow> (\<exists>pre post. s = pre @ t @ post)"
proof (induction s)
  case Nil
  then show ?case by auto
next
  case (Cons x xs)
  show ?case
  proof
    assume "js_includes (x # xs) t"
    then consider "prefix t (x # xs)" | "js_includes xs t" by auto
    then show "\<exists>pre post. x # xs = pre @ t @ post"
    proof cases
      case 1
      then obtain post where "x # xs = t @ post" by (auto simp: prefix_def)
      then have "x # xs = [] @ t @ post" by simp
      then show ?thesis by blast
    next
      case 2
      with Cons.IH obtain pre post where "xs = pre @ t @ post" by blast
      then have "x # xs = (x # pre) @ t @ post" by simp
      then show ?thesis by blast
    qed
  next
    assume "\<exists>pre post. x # xs = pre @ t @ post"
    then obtain pre post where e: "x # xs = pre @ t @ post" by blast
    show "js_includes (x # xs) t"
    proof (cases pre)
      case Nil
      with e have "prefix t (x # xs)" by (simp add: prefix_def)
      then show ?thesis by simp
    next
      case (Cons y ys)
      with e have "xs = ys @ t @ post" by simp
      with Cons.IH show ?thesis by auto
    qed
  qed
qed

text \<open>
  The separator \<open>_delete_update_\<close> overlaps itself in its last character only: when a
  proper, non-empty end of it starts a text that starts with the separator, that end
  is the single underscore.
\<close>

lemma separator_overlap:
  assumes "us @ vs = ''_delete_update_''" and "vs @ c = ''_delete_update_'' @ c'"
    and "us \<noteq> []" and "vs \<noteq> []"
  shows "us = ''_delete_update''"
  using assms by (auto simp: append_eq_Cons_conv Cons_eq_append_conv)

lemma longer_parent_includes_separator:
  assumes e: "p @ ''_delete_update_'' @ c = p' @ ''_delete_update_'' @ c'"
    and l: "length p < length p'"
  shows "js_includes p' ''_delete_update''"
proof -
  from e l obtain us where us: "p' = p @ us"
      "''_delete_update_'' @ c = us @ ''_delete_update_'' @ c'" "us \<noteq> []"
    by (auto simp: append_eq_append_conv2)
  from us(2) have "\<exists>ws. (''_delete_update_'' = us @ ws \<and> ws @ c = ''_delete_update_'' @ c')
      \<or> (''_delete_update_'' @ ws = us \<and> c = ws @ ''_delete_update_'' @ c')"
    unfolding append_eq_append_conv2 by simp
  then obtain ws where
    "(us @ ws = ''_delete_update_'' \<and> ws @ c = ''_delete_update_'' @ c')
      \<or> us = ''_delete_update_'' @ ws"
    by metis
  then show ?thesis
  proof
    assume a: "us @ ws = ''_delete_update_'' \<and> ws @ c = ''_delete_update_'' @ c'"
    show ?thesis
    proof (cases "ws = []")
      case True
      with a us(1) have "p' = p @ ''_delete_update'' @ ''_''" by simp
      then show ?thesis unfolding js_includes_iff by blast
    next
      case False
      with a us(3) have "us = ''_delete_update''"
        using separator_overlap [of us ws c c'] by simp
      with us(1) have "p' = p @ ''_delete_update'' @ []" by simp
      then show ?thesis unfolding js_includes_iff by blast
    qed
  next
    assume "us = ''_delete_update_'' @ ws"
    with us(1) have "p' = p @ ''_delete_update'' @ (''_'' @ ws)" by simp
    then show ?thesis unfolding js_includes_iff by blast
  qed
qed

lemma statement_names_trigger:
  "prefix (nl @ ''  CREATE TRIGGER '' @ buildTriggerName p c @ nl)
     (createParanoidDeleteTriggerStatement p pk c ck)"
  by (simp add: createParanoidDeleteTriggerStatement_def buildTriggerName_def)

lemma equal_names_equal_parent_lengths:
  assumes e: "buildTriggerName p c = buildTriggerName p' c'"
    and "\<not> js_includes p ''_delete_update''" and "\<not> js_includes p' ''_delete_update''"
  shows "length p = length p'"
proof (rule ccontr)
  from e have e': "p @ ''_delete_update_'' @ c = p' @ ''_delete_update_'' @ c'"
    by (simp add: buildTriggerName_def)
  assume "length p \<noteq> length p'"
  then consider "length p < length p'" | "length p' < length p" by linarith
  then show False
  proof cases
    case 1
    with e' assms(3) show False using longer_parent_includes_separator by blast
  next
    case 2
    with e' [symmetric] assms(2) show False using longer_parent_includes_separator by blast
  qed
qed

text \<open>
  C1 (as amended). The trigger name is a function of the pair of table names. Two
  pairs whose parent table names do not contain the text \<open>_delete_update\<close> have the
  same name only when they are the same pair; in particular the names of \<open>(a, b)\<close>
  and \<open>(b, a)\<close> then agree only when \<open>a = b\<close>.
\<close>

theorem buildTriggerName_injective:
  assumes "\<not> js_includes p ''_delete_update''" and "\<not> js_includes p' ''_delete_update''"
  shows "buildTriggerName p c = buildTriggerName p' c' \<longleftrightarrow> p = p' \<and> c = c'"
proof
  assume e: "buildTriggerName p c = buildTriggerName p' c'"
  then have "p @ ''_delete_update_'' @ c = p' @ ''_delete_update_'' @ c'"
    by (simp add: buildTriggerName_def)
  moreover from e assms have "length p = length p'"
    by (rule equal_names_equal_parent_lengths)
  ultimately show "p = p' \<and> c = c'" by simp
next
  assume "p = p' \<and> c = c'"
  then show "buildTriggerName p c = buildTriggerName p' c'" by simp
qed

theorem buildTriggerName_injective_witness:
  "\<not> js_includes ''customers'' ''_delete_update''
   \<and> \<not> js_includes ''orders'' ''_delete_update''
   \<and> buildTriggerName ''customers'' ''orders'' \<noteq> buildTriggerName ''orders'' ''customers''"
  using buildTriggerName_injective [of "''customers''" "''orders''" "''orders''" "''customers''"]
  by simp

text \<open>
  C1 (as stated) fails: a parent table whose name contains the separator shares its
  trigger name with a different pair.
\<close>

theorem buildTriggerName_collision:
  "buildTriggerName ''a_delete_update_b'' ''c'' = buildTriggerName ''a'' ''b_delete_update_c''
   \<and> (''a_delete_update_b'', ''c'') \<noteq> (''a'', ''b_delete_update_c'')"
  by (simp add: buildTriggerName_def)

lemma sql_words_aux_no_blank:
  "list_all (\<lambda>c. \<not> blank c) s \<Longrightarrow> sql_words_aux w (s @ t) = sql_words_aux (w @ s) t"
  by (induction s arbitrary: w) auto

lemma sql_words_aux_identifier:
  "sql_identifier s \<Longrightarrow> sql_words_aux w (s @ t) = sql_words_aux (w @ s) t"
  by (simp add: sql_identifier_def sql_words_aux_no_blank)

lemma sql_identifier_nonempty: "sql_identifier s \<Longrightarrow> s \<noteq> []"
  by (simp add: sql_identifier_def)

text \<open>
  C4. The generated text, for all four names: a \<open>CREATE TRIGGER\<close> statement named
  \<open>on_<parent>_delete_update_<child>\<close>, \<open>AFTER UPDATE\<close> on the parent table \<open>FOR EACH ROW\<close>, whose
  body is guarded by \<open>OLD.deletedAt IS NULL AND NEW.deletedAt IS NOT NULL\<close> and updates
  the child table, setting its \<open>deletedAt\<close> column (written with the table name in
  front) to \<open>NOW()\<close> where the child key equals the parent key of the new row. When
  the four names are SQL identifiers (non-empty, without blanks), the words of the text
  are exactly those of that statement, in that order.
\<close>

theorem createParanoidDeleteTriggerStatement_shape:
  "createParanoidDeleteTriggerStatement p pk c ck =
     nl @ ''  CREATE TRIGGER '' @ (''on_'' @ p @ ''_delete_update_'' @ c) @
     nl @ ''  AFTER UPDATE'' @
     nl @ ''  ON '' @ p @ '' FOR EACH ROW'' @
     nl @ ''  BEGIN'' @
     nl @ ''    IF OLD.deletedAt IS NULL AND NEW.deletedAt IS NOT NULL THEN'' @
     nl @ ''      UPDATE '' @ c @
     nl @ ''        SET '' @ c @ ''.deletedAt = NOW()'' @
     nl @ ''      WHERE '' @ c @ ''.'' @ ck @ '' = NEW.'' @ pk @ '';'' @
     nl @ ''    END IF;'' @
     nl @ ''  END;'' @ nl
   \<and> (sql_identifier p \<and> sql_identifier pk \<and> sql_identifier c \<and> sql_identifier ck \<longrightarrow>
        sql_words (createParanoidDeleteTriggerStatement p pk c ck) =
          [''CREATE'', ''TRIGGER'', ''on_'' @ p @ ''_delete_update_'' @ c,
           ''AFTER'', ''UPDATE'', ''ON'', p, ''FOR'', ''EACH'', ''ROW'',
           ''BEGIN'',
           ''IF'', ''OLD.deletedAt'', ''IS'', ''NULL'', ''AND'',
             ''NEW.deletedAt'', ''IS'', ''NOT'', ''NULL'', ''THEN'',
           ''UPDATE'', c, ''SET'', c @ ''.deletedAt'', ''='', ''NOW()'',
           ''WHERE'', c @ ''.'' @ ck, ''='', ''NEW.'' @ pk @ '';'',
           ''END'', ''IF;'',
           ''END;''])"
proof (intro conjI impI)
  show "createParanoidDeleteTriggerStatement p pk c ck =
     nl @ ''  CREATE TRIGGER '' @ (''on_'' @ p @ ''_delete_update_'' @ c) @
     nl @ ''  AFTER UPDATE'' @
     nl @ ''  ON '' @ p @ '' FOR EACH ROW'' @
     nl @ ''  BEGIN'' @
     nl @ ''    IF OLD.deletedAt IS NULL AND NEW.deletedAt IS NOT NULL THEN'' @
     nl @ ''      UPDATE '' @ c @
     nl @ ''        SET '' @ c @ ''.deletedAt = NOW()'' @
     nl @ ''      WHERE '' @ c @ ''.'' @ ck @ '' = NEW.'' @ pk @ '';'' @
     nl @ ''    END IF;'' @
     nl @ ''  END;'' @ nl"
    by (simp add: createParanoidDeleteTriggerStatement_def)
next
  assume "sql_identifier p \<and> sql_identifier pk \<and> sql_identifier c \<and> sql_identifier ck"
  then have ids: "sql_identifier p" "sql_identifier pk" "sql_identifier c" "sql_identifier ck"
    by simp_all
  note ne = ids [THEN sql_identifier_nonempty]
  show "sql_words (createParanoidDeleteTriggerStatement p pk c ck) =
          [''CREATE'', ''TRIGGER'', ''on_'' @ p @ ''_delete_update_'' @ c,
           ''AFTER'', ''UPDATE'', ''ON'', p, ''FOR'', ''EACH'', ''ROW'',
           ''BEGIN'',
           ''IF'', ''OLD.deletedAt'', ''IS'', ''NULL'', ''AND'',
             ''NEW.deletedAt'', ''IS'', ''NOT'', ''NULL'', ''THEN'',
           ''UPDATE'', c, ''SET'', c @ ''.deletedAt'', ''='', ''NOW()'',
           ''WHERE'', c @ ''.'' @ ck, ''='', ''NEW.'' @ pk @ '';'',
           ''END'', ''IF;'',
           ''END;'']"
    by (simp add: sql_words_def createParanoidDeleteTriggerStatement_def
        sql_words_aux_identifier ids ne blank_def)
qed

theorem createParanoidDeleteTriggerStatement_shape_witness:
  "sql_identifier ''customers'' \<and> sql_identifier ''id'' \<and> sql_identifier ''orders''
   \<and> sql_identifier ''customer_id''
   \<and> sql_words (createParanoidDeleteTriggerStatement ''customers'' ''id'' ''orders'' ''customer_id'') =
     [''CREATE'', ''TRIGGER'', ''on_customers_delete_update_orders'',
      ''AFTER'', ''UPDATE'', ''ON'', ''customers'', ''FOR'', ''EACH'', ''ROW'',
      ''BEGIN'',
      ''IF'', ''OLD.deletedAt'', ''IS'', ''NULL'', ''AND'',
        ''NEW.deletedAt'', ''IS'', ''NOT'', ''NULL'', ''THEN'',
      ''UPDATE'', ''orders'', ''SET'', ''orders.deletedAt'', ''='', ''NOW()'',
      ''WHERE'', ''orders.customer_id'', ''='', ''NEW.id;'',
      ''END'', ''IF;'',
      ''END;'']"
proof -
  have ids: "sql_identifier ''customers'' \<and> sql_identifier ''id'' \<and> sql_identifier ''orders''
      \<and> sql_identifier ''customer_id''"
    by (simp add: sql_identifier_def blank_def)
  with createParanoidDeleteTriggerStatement_shape
      [of "''customers''" "''id''" "''orders''" "''customer_id''"]
  have "sql_words (createParanoidDeleteTriggerStatement ''customers'' ''id'' ''orders'' ''customer_id'') =
     [''CREATE'', ''TRIGGER'', ''on_'' @ ''customers'' @ ''_delete_update_'' @ ''orders'',
      ''AFTER'', ''UPDATE'', ''ON'', ''customers'', ''FOR'', ''EACH'', ''ROW'',
      ''BEGIN'',
      ''IF'', ''OLD.deletedAt'', ''IS'', ''NULL'', ''AND'',
        ''NEW.deletedAt'', ''IS'', ''NOT'', ''NULL'', ''THEN'',
      ''UPDATE'', ''orders'', ''SET'', ''orders'' @ ''.deletedAt'', ''='', ''NOW()'',
      ''WHERE'', ''orders'' @ ''.'' @ ''customer_id'', ''='', ''NEW.'' @ ''id'' @ '';'',
      ''END'', ''IF;'',
      ''END;'']"
    by blast
  with ids show ?thesis by simp
qed

section \<open>Properties of the migration interceptor\<close>

lemma createTableStatements_Nil [simp]: "createTableStatements g t [] = []"
  by (simp add: createTableStatements_def)

lemma createTableStatements_Cons [simp]:
  "createTableStatements g t ((column, spec) # columns) =
     (case getPrimaryTableProps spec g of
        None \<Rightarrow> []
      | Some props \<Rightarrow>
          [createParanoidDeleteTriggerStatement (primaryTable props) (primaryKey props) t column])
     @ createTableStatements g t columns"
  by (simp add: createTableStatements_def split: option.splits)

lemma createTableStatements_append [simp]:
  "createTableStatements g t (xs @ ys) = createTableStatements g t xs @ createTableStatements g t ys"
  by (simp add: createTableStatements_def)

lemma createTableStatements_concat:
  "createTableStatements g t columns =
     concat (map (\<lambda>(column, spec).
                    case getPrimaryTableProps spec g of
                      None \<Rightarrow> []
                    | Some props \<Rightarrow>
                        [createParanoidDeleteTriggerStatement
                           (primaryTable props) (primaryKey props) t column])
               columns)"
  by (induction columns) auto

lemma length_createTableStatements:
  "length (createTableStatements g t columns) =
     length (filter (\<lambda>(column, spec). getPrimaryTableProps spec g \<noteq> None) columns)"
  by (induction columns) (auto split: option.splits)

lemma getPrimaryTableProps_annotation:
  "getPrimaryTableProps spec g =
     map_option (\<lambda>r. \<lparr>primaryTable = spec_parentTable r, primaryKey = spec_parentKey g r\<rparr>)
       (spec_cascadeAnnotation spec)"
  by (simp add: getPrimaryTableProps_def spec_cascadeAnnotation_def spec_parentTable_def
      spec_parentKey_def spec_explicitKey_def
      split: attribute.splits option.splits references_field.splits)

lemma getPrimaryTableProps_Some_iff:
  "getPrimaryTableProps spec g \<noteq> None \<longleftrightarrow>
     (\<exists>opts. spec = ColumnOptions opts \<and> onDelete opts = Some ''PARANOID CASCADE''
        \<and> references opts \<noteq> None)"
  by (cases spec) (auto simp: getPrimaryTableProps_def split: option.splits references_field.splits)

lemma spec_cascadeAnnotation_Some_iff:
  "spec_cascadeAnnotation spec \<noteq> None \<longleftrightarrow>
     (\<exists>opts. spec = ColumnOptions opts \<and> onDelete opts = Some ''PARANOID CASCADE''
        \<and> references opts \<noteq> None)"
  by (cases spec) (auto simp: spec_cascadeAnnotation_def)

lemma createTableStatements_annotation:
  "createTableStatements g t columns =
     concat (map (\<lambda>(column, spec).
                    case spec_cascadeAnnotation spec of
                      None \<Rightarrow> []
                    | Some r \<Rightarrow>
                        [createParanoidDeleteTriggerStatement
                           (spec_parentTable r) (spec_parentKey g r) t column])
               columns)"
  by (induction columns) (auto simp: getPrimaryTableProps_annotation split: option.splits)

lemma length_createTableStatements_annotation:
  "length (createTableStatements g t columns) =
     length (filter (\<lambda>(column, spec). spec_cascadeAnnotation spec \<noteq> None) columns)"
  by (induction columns) (auto simp: getPrimaryTableProps_annotation split: option.splits)

lemma completionOrder_Nil [simp]: "completionOrder sq [] = []"
  by (simp add: completionOrder_def)

lemma completionOrder_single [simp]: "completionOrder sq [statement] = [statement]"
  by (simp add: completionOrder_def)

lemma mset_completionOrder: "mset (completionOrder sq statements) = mset statements"
proof -
  have "mset (completionOrder sq statements)
      = mset (map (\<lambda>i. statements ! i) [0..<length statements])"
    by (simp add: completionOrder_def)
  then show ?thesis by (simp add: map_nth)
qed

text \<open>
  Every order of the positions of a batch is the completion order of some database:
  rank each position by its place in the order.
\<close>

lemma place_nth:
  "distinct order \<Longrightarrow> j < length order \<Longrightarrow>
     length (takeWhile (\<lambda>x. x \<noteq> order ! j) order) = j"
proof (induction order arbitrary: j)
  case Nil
  then show ?case by simp
next
  case (Cons a rest)
  show ?case
  proof (cases j)
    case 0
    then show ?thesis by simp
  next
    case (Suc k)
    with Cons.prems have "k < length rest" and "rest ! k \<noteq> a" by auto
    with Cons.IH [of k] Cons.prems Suc show ?thesis by simp
  qed
qed

lemma filter_same_key:
  "distinct zs \<Longrightarrow> k \<in> set zs \<Longrightarrow> inj_on f (set zs) \<Longrightarrow> filter (\<lambda>x. f k = f x) zs = [k]"
proof (induction zs)
  case Nil
  then show ?case by simp
next
  case (Cons z zs)
  show ?case
  proof (cases "k = z")
    case True
    with Cons.prems have "\<forall>x\<in>set zs. f z \<noteq> f x" by (auto simp: inj_on_def)
    then have "filter (\<lambda>x. f z = f x) zs = []" by (simp add: filter_empty_conv)
    with True show ?thesis by simp
  next
    case False
    with Cons.prems have "k \<in> set zs" "f k \<noteq> f z" "distinct zs" "inj_on f (set zs)"
      by (auto simp: inj_on_def)
    with Cons.IH show ?thesis by simp
  qed
qed

lemma sort_key_place:
  assumes "mset order = mset [0..<n]"
  shows "sort_key (\<lambda>i. length (takeWhile (\<lambda>x. x \<noteq> i) order)) [0..<n] = order"
proof (rule properties_for_sort_key)
  let ?place = "\<lambda>i. length (takeWhile (\<lambda>x. x \<noteq> i) order)"
  from assms have d: "distinct order" and s: "set order = {0..<n}" and l: "length order = n"
    using mset_eq_imp_distinct_iff [OF assms] mset_eq_setD [OF assms] mset_eq_length [OF assms]
    by auto
  have places: "map ?place order = [0..<n]"
    using d l by (auto intro!: nth_equalityI simp: place_nth)
  have inj: "inj_on ?place (set order)"
  proof (rule inj_onI)
    fix a b
    assume "a \<in> set order" "b \<in> set order" and e: "?place a = ?place b"
    then obtain i j where "i < length order" "a = order ! i" "j < length order" "b = order ! j"
      by (auto simp: in_set_conv_nth)
    with e d show "a = b" by (simp add: place_nth)
  qed
  show "mset order = mset [0..<n]" by (rule assms)
  show "sorted (map ?place order)" by (simp add: places)
  fix k
  assume k: "k \<in> set order"
  from s have s': "set [0..<n] = set order" by simp
  have "filter (\<lambda>x. ?place k = ?place x) order = [k]"
    using d k inj by (rule filter_same_key [where f = ?place])
  moreover have "filter (\<lambda>x. ?place k = ?place x) [0..<n] = [k]"
  proof (rule filter_same_key [where f = ?place])
    show "distinct [0..<n]" by simp
    show "k \<in> set [0..<n]" using k unfolding s' .
    show "inj_on ?place (set [0..<n])" using inj unfolding s' .
  qed
  ultimately show "filter (\<lambda>x. ?place k = ?place x) order
      = filter (\<lambda>x. ?place k = ?place x) [0..<n]" by simp
qed

lemma every_completionOrder:
  assumes "mset order = mset [0..<length statements]"
  shows "completionOrder
           (sq\<lparr>completionRank := \<lambda>batch i. length (takeWhile (\<lambda>x. x \<noteq> i) order)\<rparr>) statements
         = map (\<lambda>i. statements ! i) order"
  using sort_key_place [OF assms] by (simp add: completionOrder_def)

lemma length_complete_each: "length (fst (complete_each sq statements db)) = length statements"
  by (induction statements arbitrary: db) (simp_all add: Let_def case_prod_beta)

lemma settle_all_resolves:
  "\<forall>r\<in>set (fst (complete_each sq statements db)). \<not> isl r \<Longrightarrow>
     settle_all sq statements db = (None, [], snd (complete_each sq statements db))"
proof (induction statements arbitrary: db)
  case Nil
  then show ?case by simp
next
  case (Cons statement later)
  then show ?case
    by (cases "query sq statement db"; cases "fst (query sq statement db)")
      (simp_all add: Let_def case_prod_beta)
qed

lemma settle_all_rejects:
  "\<exists>r\<in>set (fst (complete_each sq statements db)). isl r \<Longrightarrow>
     \<exists>completed failed pending e.
        statements = completed @ failed # pending
        \<and> (\<forall>r\<in>set (fst (complete_each sq completed db)). \<not> isl r)
        \<and> query sq failed (snd (complete_each sq completed db))
            = (Inl e, snd (snd (settle_all sq statements db)))
        \<and> fst (settle_all sq statements db) = Some e
        \<and> fst (snd (settle_all sq statements db)) = pending"
proof (induction statements arbitrary: db)
  case Nil
  then show ?case by simp
next
  case (Cons statement later)
  obtain r db1 where q: "query sq statement db = (r, db1)" by (cases "query sq statement db")
  show ?case
  proof (cases r)
    case (Inl e)
    with q have "statement # later = [] @ statement # later
        \<and> (\<forall>r\<in>set (fst (complete_each sq [] db)). \<not> isl r)
        \<and> query sq statement (snd (complete_each sq [] db))
            = (Inl e, snd (snd (settle_all sq (statement # later) db)))
        \<and> fst (settle_all sq (statement # later) db) = Some e
        \<and> fst (snd (settle_all sq (statement # later) db)) = later"
      by simp
    then show ?thesis by blast
  next
    case (Inr v)
    with q Cons.prems have "\<exists>r\<in>set (fst (complete_each sq later db1)). isl r"
      by (simp add: Let_def case_prod_beta)
    from Cons.IH [OF this] obtain completed failed pending e where
      l: "later = completed @ failed # pending"
      and c: "\<forall>r\<in>set (fst (complete_each sq completed db1)). \<not> isl r"
      and f: "query sq failed (snd (complete_each sq completed db1))
            = (Inl e, snd (snd (settle_all sq later db1)))"
      and s: "fst (settle_all sq later db1) = Some e"
      and p: "fst (snd (settle_all sq later db1)) = pending"
      by blast
    from q Inr have st: "settle_all sq (statement # later) db = settle_all sq later db1"
      by simp
    from l have 1: "statement # later = (statement # completed) @ failed # pending" by simp
    from q Inr c
    have 2: "\<forall>r\<in>set (fst (complete_each sq (statement # completed) db)). \<not> isl r"
      by (simp add: Let_def case_prod_beta)
    from q have "snd (complete_each sq (statement # completed) db)
        = snd (complete_each sq completed db1)"
      by (simp add: Let_def case_prod_beta)
    with f
    have 3: "query sq failed (snd (complete_each sq (statement # completed) db))
            = (Inl e, snd (snd (settle_all sq (statement # later) db)))"
      unfolding st by simp
    from s have 4: "fst (settle_all sq (statement # later) db) = Some e"
      unfolding st .
    from p have 5: "fst (snd (settle_all sq (statement # later) db)) = pending"
      unfolding st .
    from 1 2 3 4 5 show ?thesis by blast
  qed
qed

lemma proxied_other:
  assumes "command \<noteq> ''addColumn''" and "command \<noteq> ''createTable''"
  shows "proxied target options command args db =
           (fst (methods target command args db), [], snd (methods target command args db))"
  using assms by (simp add: proxied_def Let_def case_prod_beta)

lemma proxied_addColumn_None:
  assumes "getPrimaryTableProps spec (optionalGetPrimaryKey options) = None"
  shows "proxied target options ''addColumn'' (AddColumnParameters table column spec) db =
           (fst (methods target ''addColumn'' (AddColumnParameters table column spec) db), [],
            snd (methods target ''addColumn'' (AddColumnParameters table column spec) db))"
  using assms by (simp add: proxied_def Let_def case_prod_beta)

lemma proxied_addColumn_Some:
  assumes "getPrimaryTableProps spec (optionalGetPrimaryKey options) = Some props"
    and "primaryTable props \<noteq> []"
    and "methods target ''addColumn'' (AddColumnParameters table column spec) db = (Inr v, db1)"
  shows "proxied target options ''addColumn'' (AddColumnParameters table column spec) db =
           (case fst (query (sequelize target)
                        (createParanoidDeleteTriggerStatement
                           (primaryTable props) (primaryKey props) table column) db1) of
              Inl e \<Rightarrow> Inl e
            | Inr _ \<Rightarrow> Inr v,
            [createParanoidDeleteTriggerStatement (primaryTable props) (primaryKey props) table column],
            snd (query (sequelize target)
                   (createParanoidDeleteTriggerStatement
                      (primaryTable props) (primaryKey props) table column) db1))"
  using assms by (simp add: proxied_def Let_def case_prod_beta split: sum.splits)

lemma proxied_createTable_Inr:
  assumes "methods target ''createTable'' (CreateTableParameters newTable columns) db = (Inr v, db1)"
  shows "proxied target options ''createTable'' (CreateTableParameters newTable columns) db =
           (case fst (settle_all (sequelize target)
                        (completionOrder (sequelize target)
                           (createTableStatements (optionalGetPrimaryKey options) newTable columns))
                        db1) of
              Some e \<Rightarrow> Inl e
            | None \<Rightarrow> Inr v,
            createTableStatements (optionalGetPrimaryKey options) newTable columns,
            snd (snd (settle_all (sequelize target)
                        (completionOrder (sequelize target)
                           (createTableStatements (optionalGetPrimaryKey options) newTable columns))
                        db1)))"
  using assms by (simp add: proxied_def Let_def case_prod_beta split: option.splits)

lemma proxied_failure:
  assumes "methods target command args db = (Inl e, db1)"
  shows "proxied target options command args db = (Inl e, [], db1)"
  using assms
  by (simp add: proxied_def Let_def case_prod_beta split: arguments.splits option.splits)

text \<open>
  C2. An operation other than \<open>addColumn\<close> and \<open>createTable\<close>, called through the
  decorated interface, settles as the underlying operation does and leaves the state
  the underlying operation leaves, and the interceptor passes no statement to
  \<open>sequelize.query\<close>. Reading \<open>sequelize\<close> through the decorated interface gives the
  underlying interface's own property.
\<close>

theorem other_operations_pass_through:
  "(command \<noteq> ''addColumn'' \<and> command \<noteq> ''createTable'' \<and> command \<noteq> ''sequelize'' \<longrightarrow>
      queryInterfaceDecorator target options command = Operation (proxied target options command)
      \<and> proxied target options command args db =
          (fst (methods target command args db), [], snd (methods target command args db)))
   \<and> queryInterfaceDecorator target options ''sequelize'' = Handle (sequelize target)"
proof (intro conjI impI)
  assume other: "command \<noteq> ''addColumn'' \<and> command \<noteq> ''createTable'' \<and> command \<noteq> ''sequelize''"
  then show "queryInterfaceDecorator target options command
      = Operation (proxied target options command)"
    by (simp add: queryInterfaceDecorator_def)
  from other show "proxied target options command args db =
      (fst (methods target command args db), [], snd (methods target command args db))"
    by (simp add: proxied_other)
next
  show "queryInterfaceDecorator target options ''sequelize'' = Handle (sequelize target)"
    by (simp add: queryInterfaceDecorator_def)
qed

theorem other_operations_pass_through_witness:
  "''dropTable'' \<noteq> ''addColumn'' \<and> ''dropTable'' \<noteq> ''createTable'' \<and> ''dropTable'' \<noteq> ''sequelize''
   \<and> queryInterfaceDecorator recordingInterface None ''dropTable''
       = Operation (proxied recordingInterface None ''dropTable'')
   \<and> proxied recordingInterface None ''dropTable'' (OtherParameters [''orders'']) []
       = (Inr ''done'', [], [''dropTable''])
   \<and> queryInterfaceDecorator recordingInterface None ''sequelize'' = Handle recordingSequelize"
  using other_operations_pass_through
    [of "''dropTable''" recordingInterface None "OtherParameters [''orders'']" "[]"]
  by (simp add: recordingInterface_def)



lemma settle_all_Nil_outcome:
  "(case fst (settle_all sq (completionOrder sq []) db1) of Some e \<Rightarrow> Inl e | None \<Rightarrow> Inr v,
     [], snd (snd (settle_all sq (completionOrder sq []) db1))) = (Inr v, [], db1)"
  by simp

lemma settle_all_single_outcome:
  "(case fst (settle_all sq (completionOrder sq [statement]) db1) of
      Some e \<Rightarrow> Inl e
    | None \<Rightarrow> Inr v,
     [statement], snd (snd (settle_all sq (completionOrder sq [statement]) db1))) =
   (case fst (query sq statement db1) of Inl e \<Rightarrow> Inl e | Inr _ \<Rightarrow> Inr v,
     [statement], snd (query sq statement db1))"
  by (cases "query sq statement db1"; cases "fst (query sq statement db1)") simp_all

lemma proxied_success:
  assumes c: "command = ''addColumn'' \<or> command = ''createTable''"
    and m: "methods target command args db = (Inr v, db1)"
  shows "\<exists>statements.
           proxied target options command args db =
             (case fst (settle_all (sequelize target)
                          (completionOrder (sequelize target) statements) db1) of
                Some e \<Rightarrow> Inl e
              | None \<Rightarrow> Inr v,
              statements,
              snd (snd (settle_all (sequelize target)
                          (completionOrder (sequelize target) statements) db1)))"
proof -
  have none: "proxied target options command args db = (Inr v, [], db1) \<Longrightarrow> ?thesis"
    using settle_all_Nil_outcome [where sq = "sequelize target" and ?db1.0 = db1 and v = v]
    by (intro exI [of _ "[]"]) simp
  from c show ?thesis
  proof
    assume ac: "command = ''addColumn''"
    show ?thesis
    proof (cases args)
      case (AddColumnParameters table column spec)
      show ?thesis
      proof (cases "getPrimaryTableProps spec (optionalGetPrimaryKey options)")
        case None
        with AddColumnParameters ac m show ?thesis
          by (intro none) (simp add: proxied_addColumn_None)
      next
        case (Some props)
        show ?thesis
        proof (cases "primaryTable props = []")
          case True
          with Some AddColumnParameters ac m show ?thesis
            by (intro none) (simp add: proxied_def)
        next
          case False
          from m ac AddColumnParameters
          have "methods target ''addColumn'' (AddColumnParameters table column spec) db = (Inr v, db1)"
            by simp
          from proxied_addColumn_Some [OF Some False this]
          have "proxied target options command args db =
             (case fst (settle_all (sequelize target)
                          (completionOrder (sequelize target)
                             [createParanoidDeleteTriggerStatement
                                (primaryTable props) (primaryKey props) table column]) db1) of
                Some e \<Rightarrow> Inl e
              | None \<Rightarrow> Inr v,
              [createParanoidDeleteTriggerStatement
                 (primaryTable props) (primaryKey props) table column],
              snd (snd (settle_all (sequelize target)
                          (completionOrder (sequelize target)
                             [createParanoidDeleteTriggerStatement
                                (primaryTable props) (primaryKey props) table column]) db1)))"
            unfolding settle_all_single_outcome using ac AddColumnParameters by simp
          then show ?thesis by (rule exI)
        qed
      qed
    next
      case (CreateTableParameters newTable columns)
      with ac m show ?thesis by (intro none) (simp add: proxied_def)
    next
      case (OtherParameters rest)
      with ac m show ?thesis by (intro none) (simp add: proxied_def)
    qed
  next
    assume cc: "command = ''createTable''"
    show ?thesis
    proof (cases args)
      case (AddColumnParameters table column spec)
      with cc m show ?thesis by (intro none) (simp add: proxied_def)
    next
      case (CreateTableParameters newTable columns)
      with cc m
      have "methods target ''createTable'' (CreateTableParameters newTable columns) db = (Inr v, db1)"
        by simp
      from proxied_createTable_Inr [OF this, of options]
      have "proxied target options command args db =
          (case fst (settle_all (sequelize target)
                       (completionOrder (sequelize target)
                          (createTableStatements (optionalGetPrimaryKey options) newTable columns))
                       db1) of
             Some e \<Rightarrow> Inl e
           | None \<Rightarrow> Inr v,
           createTableStatements (optionalGetPrimaryKey options) newTable columns,
           snd (snd (settle_all (sequelize target)
                       (completionOrder (sequelize target)
                          (createTableStatements (optionalGetPrimaryKey options) newTable columns))
                       db1)))"
        using cc CreateTableParameters by simp
      then show ?thesis by (rule exI)
    next
      case (OtherParameters rest)
      with cc m show ?thesis by (intro none) (simp add: proxied_def)
    qed
  qed
qed

text \<open>
  C6 (as amended). For an \<open>addColumn\<close> or \<open>createTable\<close> call: when the underlying
  operation fails, the interceptor passes no statement to \<open>sequelize.query\<close> and the
  call fails with the same error, in the state the operation left. When it succeeds,
  the trigger statements run from the state it left, and the call returns the
  operation's own result when every trigger statement succeeds; when one fails, the
  call fails with the error of the first statement to fail, in the state at that
  moment.
\<close>

theorem underlying_failure_and_result:
  assumes "command = ''addColumn'' \<or> command = ''createTable''"
  shows "(methods target command args db = (Inl e, db1) \<longrightarrow>
            proxied target options command args db = (Inl e, [], db1))
       \<and> (methods target command args db = (Inr v, db1) \<longrightarrow>
            (\<exists>statements.
               proxied target options command args db =
                 (case fst (settle_all (sequelize target)
                              (completionOrder (sequelize target) statements) db1) of
                    Some e' \<Rightarrow> Inl e'
                  | None \<Rightarrow> Inr v,
                  statements,
                  snd (snd (settle_all (sequelize target)
                              (completionOrder (sequelize target) statements) db1)))))"
proof (intro conjI impI)
  assume "methods target command args db = (Inl e, db1)"
  then show "proxied target options command args db = (Inl e, [], db1)"
    by (rule proxied_failure)
next
  assume "methods target command args db = (Inr v, db1)"
  with assms show "\<exists>statements.
               proxied target options command args db =
                 (case fst (settle_all (sequelize target)
                              (completionOrder (sequelize target) statements) db1) of
                    Some e' \<Rightarrow> Inl e'
                  | None \<Rightarrow> Inr v,
                  statements,
                  snd (snd (settle_all (sequelize target)
                              (completionOrder (sequelize target) statements) db1)))"
    by (rule proxied_success)
qed

theorem underlying_failure_and_result_witness:
  "proxied failingInterface None ''addColumn''
      (AddColumnParameters ''orders'' ''customer_id'' (cascadeTo ''customers'')) []
     = (Inl ''ER_NO_SUCH_TABLE'', [], [])
   \<and> (\<exists>statements.
        proxied recordingInterface None ''createTable''
          (CreateTableParameters ''orders'' [(''customer_id'', cascadeTo ''customers'')]) []
        = (case fst (settle_all recordingSequelize
                       (completionOrder recordingSequelize statements) [''createTable'']) of
             Some e' \<Rightarrow> Inl e'
           | None \<Rightarrow> Inr ''done'',
           statements,
           snd (snd (settle_all recordingSequelize
                       (completionOrder recordingSequelize statements) [''createTable'']))))"
  using
    underlying_failure_and_result
      [where command = "''addColumn''" and target = failingInterface
         and args = "AddColumnParameters ''orders'' ''customer_id'' (cascadeTo ''customers'')"
         and db = "[]" and e = "''ER_NO_SUCH_TABLE''" and ?db1.0 = "[]" and options = None]
    underlying_failure_and_result
      [where command = "''createTable''" and target = recordingInterface
         and args = "CreateTableParameters ''orders'' [(''customer_id'', cascadeTo ''customers'')]"
         and db = "[]" and v = "''done''" and ?db1.0 = "[''createTable'']" and options = None]
  by (simp add: failingInterface_def recordingInterface_def)

text \<open>
  C6 (as stated) fails: the underlying \<open>addColumn\<close> succeeds with the result \<open>done\<close>,
  the trigger statement is rejected, and the caller gets the statement's error, not
  the operation's result.
\<close>

theorem trigger_failure_replaces_result:
  "methods rejectingInterface ''addColumn''
      (AddColumnParameters ''orders'' ''customer_id'' (cascadeTo ''customers'')) []
     = (Inr ''done'', [''addColumn''])
   \<and> proxied rejectingInterface None ''addColumn''
       (AddColumnParameters ''orders'' ''customer_id'' (cascadeTo ''customers'')) []
     = (Inl ''ER_TRG_ALREADY_EXISTS'',
        [createParanoidDeleteTriggerStatement ''customers'' ''id'' ''orders'' ''customer_id''],
        [''addColumn''])"
  by (simp add: proxied_def rejectingInterface_def rejectingSequelize_def cascadeTo_def
      getPrimaryTableProps_def optionalGetPrimaryKey_def)

text \<open>
  C7. For a \<open>createTable\<close> call whose underlying operation succeeds, the interceptor
  passes to \<open>sequelize.query\<close> exactly one statement for each column that carries the
  cascade annotation (\<open>onDelete\<close> is \<open>PARANOID CASCADE\<close> and \<open>references\<close> is there) and
  none for the others: the trigger statement of the parent table and key of that
  column's annotation, with the new table and the column as the child. All of them are
  issued, whatever becomes of the others, and they complete in an order the database
  decides, some permutation of them. The call returns the operation's result when
  all of them have completed with success, in the state they left. When one fails, the
  call fails with the error of the first to fail, in the state at that moment: the
  statements that completed before it succeeded, and those after it are still
  pending. No order is imposed: every order of the statements is the completion order
  of some database.
\<close>

theorem createTable_statements:
  assumes "methods target ''createTable'' (CreateTableParameters newTable columns) db = (Inr v, db1)"
  shows "let statements =
               concat (map (\<lambda>(column, spec).
                              case spec_cascadeAnnotation spec of
                                None \<Rightarrow> []
                              | Some r \<Rightarrow>
                                  [createParanoidDeleteTriggerStatement
                                     (spec_parentTable r)
                                     (spec_parentKey (optionalGetPrimaryKey options) r)
                                     newTable column])
                         columns);
             completed = completionOrder (sequelize target) statements;
             outcome = proxied target options ''createTable''
                         (CreateTableParameters newTable columns) db
         in fst (snd outcome) = statements
            \<and> length statements =
                length (filter (\<lambda>(column, spec).
                                  case spec of
                                    DataType _ \<Rightarrow> False
                                  | ColumnOptions opts \<Rightarrow>
                                      onDelete opts = Some ''PARANOID CASCADE''
                                      \<and> references opts \<noteq> None)
                          columns)
            \<and> mset completed = mset statements
            \<and> ((\<forall>r\<in>set (fst (complete_each (sequelize target) completed db1)). \<not> isl r) \<longrightarrow>
                  outcome = (Inr v, statements,
                             snd (complete_each (sequelize target) completed db1)))
            \<and> ((\<exists>r\<in>set (fst (complete_each (sequelize target) completed db1)). isl r) \<longrightarrow>
                  (\<exists>before failed pending e.
                     completed = before @ failed # pending
                     \<and> (\<forall>r\<in>set (fst (complete_each (sequelize target) before db1)). \<not> isl r)
                     \<and> query (sequelize target) failed
                           (snd (complete_each (sequelize target) before db1))
                         = (Inl e, snd (snd outcome))
                     \<and> fst outcome = Inl e))
            \<and> (\<forall>order. mset order = mset [0..<length statements] \<longrightarrow>
                  (\<exists>rank. completionOrder ((sequelize target)\<lparr>completionRank := rank\<rparr>) statements
                          = map (\<lambda>i. statements ! i) order))"
proof -
  let ?g = "optionalGetPrimaryKey options"
  let ?sq = "sequelize target"
  define statements where "statements = createTableStatements ?g newTable columns"
  define completed where "completed = completionOrder ?sq statements"
  define outcome where
    "outcome = proxied target options ''createTable'' (CreateTableParameters newTable columns) db"
  have out: "outcome =
      (case fst (settle_all ?sq completed db1) of Some e \<Rightarrow> Inl e | None \<Rightarrow> Inr v,
       statements, snd (snd (settle_all ?sq completed db1)))"
    unfolding outcome_def completed_def statements_def
    using assms by (rule proxied_createTable_Inr)
  have 1: "fst (snd outcome) = statements" by (simp add: out)
  have 2: "length statements =
      length (filter (\<lambda>(column, spec).
                        case spec of
                          DataType _ \<Rightarrow> False
                        | ColumnOptions opts \<Rightarrow>
                            onDelete opts = Some ''PARANOID CASCADE'' \<and> references opts \<noteq> None)
                columns)"
  proof -
    have "(\<lambda>(column :: string, spec). spec_cascadeAnnotation spec \<noteq> None)
        = (\<lambda>(column, spec).
             case spec of
               DataType _ \<Rightarrow> False
             | ColumnOptions opts \<Rightarrow>
                 onDelete opts = Some ''PARANOID CASCADE'' \<and> references opts \<noteq> None)"
      by (auto simp: fun_eq_iff spec_cascadeAnnotation_def split: attribute.splits)
    then show ?thesis
      unfolding statements_def length_createTableStatements_annotation by simp
  qed
  have 3: "mset completed = mset statements"
    unfolding completed_def by (rule mset_completionOrder)
  have 4: "outcome = (Inr v, statements, snd (complete_each ?sq completed db1))"
    if "\<forall>r\<in>set (fst (complete_each ?sq completed db1)). \<not> isl r"
    using settle_all_resolves [OF that] by (simp add: out)
  have 5: "\<exists>before failed pending e.
             completed = before @ failed # pending
             \<and> (\<forall>r\<in>set (fst (complete_each ?sq before db1)). \<not> isl r)
             \<and> query ?sq failed (snd (complete_each ?sq before db1)) = (Inl e, snd (snd outcome))
             \<and> fst outcome = Inl e"
    if "\<exists>r\<in>set (fst (complete_each ?sq completed db1)). isl r"
  proof -
    from settle_all_rejects [OF that] obtain before failed pending e where
      "completed = before @ failed # pending"
      "\<forall>r\<in>set (fst (complete_each ?sq before db1)). \<not> isl r"
      "query ?sq failed (snd (complete_each ?sq before db1))
         = (Inl e, snd (snd (settle_all ?sq completed db1)))"
      "fst (settle_all ?sq completed db1) = Some e"
      by blast
    moreover from this(4)
    have "fst outcome = Inl e" "snd (snd outcome) = snd (snd (settle_all ?sq completed db1))"
      by (simp_all add: out)
    ultimately show ?thesis by metis
  qed
  have 6: "\<exists>rank. completionOrder (?sq\<lparr>completionRank := rank\<rparr>) statements
             = map (\<lambda>i. statements ! i) order"
    if "mset order = mset [0..<length statements]" for order
    using every_completionOrder [OF that, of ?sq] by blast
  from 1 2 3 4 5 6 show ?thesis
    unfolding Let_def createTableStatements_annotation [symmetric]
      statements_def [symmetric] completed_def [symmetric] outcome_def [symmetric]
    by blast
qed

text \<open>
  On a database that completes a batch in the reverse order of the calls, the trigger
  for \<open>warehouses\<close> is installed before the trigger for \<open>customers\<close>.
\<close>

theorem createTable_statements_witness:
  "proxied reversingInterface None ''createTable''
     (CreateTableParameters ''orders''
        [(''customer_id'', cascadeTo ''customers''),
         (''quantity'', DataType ''INTEGER''),
         (''warehouse_id'', cascadeTo ''warehouses'')]) []
   = (Inr ''done'',
      [createParanoidDeleteTriggerStatement ''customers'' ''id'' ''orders'' ''customer_id'',
       createParanoidDeleteTriggerStatement ''warehouses'' ''id'' ''orders'' ''warehouse_id''],
      [''createTable'',
       createParanoidDeleteTriggerStatement ''warehouses'' ''id'' ''orders'' ''warehouse_id'',
       createParanoidDeleteTriggerStatement ''customers'' ''id'' ''orders'' ''customer_id''])"
proof -
  let ?customers = "createParanoidDeleteTriggerStatement ''customers'' ''id'' ''orders'' ''customer_id''"
  let ?warehouses =
    "createParanoidDeleteTriggerStatement ''warehouses'' ''id'' ''orders'' ''warehouse_id''"
  have m: "methods reversingInterface ''createTable''
     (CreateTableParameters ''orders''
        [(''customer_id'', cascadeTo ''customers''),
         (''quantity'', DataType ''INTEGER''),
         (''warehouse_id'', cascadeTo ''warehouses'')]) [] = (Inr ''done'', [''createTable''])"
    by (simp add: reversingInterface_def)
  have o: "completionOrder reversingSequelize [?customers, ?warehouses] = [?warehouses, ?customers]"
    by (simp add: completionOrder_def reversingSequelize_def)
  have c: "complete_each reversingSequelize [?warehouses, ?customers] [''createTable'']
      = ([Inr ''ok'', Inr ''ok''], [''createTable'', ?warehouses, ?customers])"
    by (simp add: reversingSequelize_def)
  have s: "sequelize reversingInterface = reversingSequelize"
    by (simp add: reversingInterface_def)
  have st: "concat (map (\<lambda>(column, spec).
                              case spec_cascadeAnnotation spec of
                                None \<Rightarrow> []
                              | Some r \<Rightarrow>
                                  [createParanoidDeleteTriggerStatement
                                     (spec_parentTable r)
                                     (spec_parentKey (optionalGetPrimaryKey None) r)
                                     ''orders'' column])
                         [(''customer_id'', cascadeTo ''customers''),
                          (''quantity'', DataType ''INTEGER''),
                          (''warehouse_id'', cascadeTo ''warehouses'')])
      = [?customers, ?warehouses]"
    by (simp add: cascadeTo_def spec_cascadeAnnotation_def spec_parentTable_def spec_parentKey_def
        spec_explicitKey_def optionalGetPrimaryKey_def)
  from createTable_statements [OF m, of None]
  have "(\<forall>r\<in>set (fst (complete_each reversingSequelize [?warehouses, ?customers]
                           [''createTable''])). \<not> isl r) \<longrightarrow>
        proxied reversingInterface None ''createTable''
          (CreateTableParameters ''orders''
             [(''customer_id'', cascadeTo ''customers''),
              (''quantity'', DataType ''INTEGER''),
              (''warehouse_id'', cascadeTo ''warehouses'')]) []
        = (Inr ''done'', [?customers, ?warehouses],
           snd (complete_each reversingSequelize [?warehouses, ?customers] [''createTable'']))"
    unfolding Let_def s st o by (elim conjE) assumption
  then show ?thesis unfolding c by simp
qed

text \<open>
  On the database that also rejects the statements about \<open>warehouses\<close>, the call is
  rejected when that statement fails, first to complete; the statement for
  \<open>customers\<close> has been issued and is still pending, and its trigger is not in the state
  the caller sees.
\<close>

lemma createTable_rejected_while_pending:
  "proxied warehouseRejectingInterface None ''createTable''
     (CreateTableParameters ''orders''
        [(''customer_id'', cascadeTo ''customers''),
         (''warehouse_id'', cascadeTo ''warehouses'')]) []
   = (Inl ''ER_NO_SUCH_TABLE'',
      [createParanoidDeleteTriggerStatement ''customers'' ''id'' ''orders'' ''customer_id'',
       createParanoidDeleteTriggerStatement ''warehouses'' ''id'' ''orders'' ''warehouse_id''],
      [''createTable''])"
proof -
  let ?customers = "createParanoidDeleteTriggerStatement ''customers'' ''id'' ''orders'' ''customer_id''"
  let ?warehouses =
    "createParanoidDeleteTriggerStatement ''warehouses'' ''id'' ''orders'' ''warehouse_id''"
  have w: "js_includes ?warehouses ''warehouses''"
    unfolding js_includes_iff
    by (rule exI [of _ "nl @ ''  CREATE TRIGGER on_''"], rule exI)
      (simp add: createParanoidDeleteTriggerStatement_def)
  have o: "completionOrder warehouseRejectingSequelize [?customers, ?warehouses]
      = [?warehouses, ?customers]"
    by (simp add: completionOrder_def warehouseRejectingSequelize_def)
  have q: "query warehouseRejectingSequelize ?warehouses db = (Inl ''ER_NO_SUCH_TABLE'', db)" for db
    using w by (simp add: warehouseRejectingSequelize_def)
  show ?thesis
    by (simp add: proxied_def warehouseRejectingInterface_def optionalGetPrimaryKey_def
        cascadeTo_def getPrimaryTableProps_def Let_def o q)
qed

text \<open>
  C10. A column specification whose \<open>onDelete\<close> is \<open>PARANOID CASCADE\<close> and that has no
  \<open>references\<close> field has no parent table. An \<open>addColumn\<close> with it settles as the
  underlying operation does, and passes no statement to \<open>sequelize.query\<close>; in a
  \<open>createTable\<close> the column contributes no statement, and a \<open>createTable\<close> of that
  column alone settles as the underlying operation does, with no statement.
\<close>

theorem cascade_without_references_ignored:
  assumes "onDelete opts = Some ''PARANOID CASCADE''" and "references opts = None"
  shows "getPrimaryTableProps (ColumnOptions opts) resolver = None
       \<and> proxied target options ''addColumn''
             (AddColumnParameters table column (ColumnOptions opts)) db
           = (fst (methods target ''addColumn''
                     (AddColumnParameters table column (ColumnOptions opts)) db),
              [],
              snd (methods target ''addColumn''
                     (AddColumnParameters table column (ColumnOptions opts)) db))
       \<and> createTableStatements resolver table (before @ (column, ColumnOptions opts) # after)
           = createTableStatements resolver table (before @ after)
       \<and> proxied target options ''createTable''
             (CreateTableParameters table [(column, ColumnOptions opts)]) db
           = (fst (methods target ''createTable''
                     (CreateTableParameters table [(column, ColumnOptions opts)]) db),
              [],
              snd (methods target ''createTable''
                     (CreateTableParameters table [(column, ColumnOptions opts)]) db))"
proof -
  from assms have none: "getPrimaryTableProps (ColumnOptions opts) g = None" for g
    by (simp add: getPrimaryTableProps_def)
  have "proxied target options ''createTable''
             (CreateTableParameters table [(column, ColumnOptions opts)]) db
           = (fst (methods target ''createTable''
                     (CreateTableParameters table [(column, ColumnOptions opts)]) db),
              [],
              snd (methods target ''createTable''
                     (CreateTableParameters table [(column, ColumnOptions opts)]) db))"
    by (simp add: proxied_def Let_def case_prod_beta none split: sum.splits)
  then show ?thesis
    by (simp add: none proxied_addColumn_None)
qed

theorem cascade_without_references_ignored_witness:
  "getPrimaryTableProps cascadeWithoutReferences None = None
   \<and> proxied recordingInterface None ''addColumn''
       (AddColumnParameters ''orders'' ''customer_id'' cascadeWithoutReferences) []
     = (Inr ''done'', [], [''addColumn''])
   \<and> createTableStatements None ''orders''
       [(''customer_id'', cascadeTo ''customers''), (''note'', cascadeWithoutReferences)]
     = createTableStatements None ''orders'' [(''customer_id'', cascadeTo ''customers'')]
   \<and> proxied recordingInterface None ''createTable''
       (CreateTableParameters ''orders'' [(''customer_id'', cascadeWithoutReferences)]) []
     = (Inr ''done'', [], [''createTable''])"
  using cascade_without_references_ignored
    [where opts = "\<lparr>dataType = ''INTEGER'', onDelete = Some ''PARANOID CASCADE'',
                    references = None\<rparr>"
       and resolver = None and target = recordingInterface and options = None
       and table = "''orders''" and column = "''customer_id''" and db = "[]"
       and before = "[]" and after = "[]"]
    cascade_without_references_ignored
    [where opts = "\<lparr>dataType = ''INTEGER'', onDelete = Some ''PARANOID CASCADE'',
                    references = None\<rparr>"
       and resolver = None and target = recordingInterface and options = None
       and table = "''orders''" and column = "''note''" and db = "[]"
       and before = "[(''customer_id'', cascadeTo ''customers'')]" and after = "[]"]
  by (simp add: cascadeWithoutReferences_def recordingInterface_def del: createTableStatements_Cons)

section \<open>Properties of the relation deduplicator\<close>

text \<open>
  The keys \<open>getTableRelations\<close> uses start with \<open>on_\<close>: none is an array index, and
  none is \<open>__proto__\<close>.
\<close>

lemma relationHash_plain:
  "array_index (relationHash r) = None \<and> relationHash r \<noteq> ''__proto__''"
  by (simp add: relationHash_def buildTriggerName_def array_index_def decimal_digit_def)

lemma uniques_of_snoc:
  "h x \<noteq> ''__proto__'' \<Longrightarrow>
     uniques_of (xs @ [x]) h = AList.update (h x) x (uniques_of xs h)"
  by (simp add: uniques_of_def assign_def)

lemma uniques_of_snoc_proto:
  "h x = ''__proto__'' \<Longrightarrow> uniques_of (xs @ [x]) h = uniques_of xs h"
  by (simp add: uniques_of_def assign_def)

lemma distinct_uniques_of: "distinct (map fst (uniques_of xs h))"
proof (induction xs rule: rev_induct)
  case Nil
  then show ?case by (simp add: uniques_of_def)
next
  case (snoc x xs)
  then show ?case
    by (cases "h x = ''__proto__''")
      (simp_all add: uniques_of_snoc uniques_of_snoc_proto AList.distinct_update)
qed

lemma keys_uniques_of: "fst ` set (uniques_of xs h) = h ` set xs - {''__proto__''}"
proof (induction xs rule: rev_induct)
  case Nil
  then show ?case by (simp add: uniques_of_def)
next
  case (snoc x xs)
  show ?case
  proof (cases "h x = ''__proto__''")
    case True
    with snoc show ?thesis by (auto simp: uniques_of_snoc_proto)
  next
    case False
    with snoc show ?thesis by (auto simp: uniques_of_snoc AList.dom_update)
  qed
qed

lemma map_of_uniques_of:
  "k \<noteq> ''__proto__'' \<Longrightarrow> map_of (uniques_of xs h) k = find (\<lambda>x. h x = k) (rev xs)"
proof (induction xs rule: rev_induct)
  case Nil
  then show ?case by (simp add: uniques_of_def)
next
  case (snoc x xs)
  show ?case
  proof (cases "h x = ''__proto__''")
    case True
    with snoc show ?thesis by (auto simp: uniques_of_snoc_proto)
  next
    case False
    with snoc show ?thesis by (auto simp: uniques_of_snoc AList.update_conv')
  qed
qed

lemma find_rev_last:
  "find P (rev xs) = Some x \<Longrightarrow>
     \<exists>earlier later. xs = earlier @ x # later \<and> P x \<and> (\<forall>y\<in>set later. \<not> P y)"
proof (induction xs rule: rev_induct)
  case Nil
  then show ?case by simp
next
  case (snoc a xs)
  show ?case
  proof (cases "P a")
    case True
    with snoc.prems have "x = a" by simp
    with True have "xs @ [a] = xs @ x # [] \<and> P x \<and> (\<forall>y\<in>set []. \<not> P y)" by simp
    then show ?thesis by blast
  next
    case False
    with snoc.prems have "find P (rev xs) = Some x" by simp
    with snoc.IH obtain earlier later where
      "xs = earlier @ x # later" "P x" "\<forall>y\<in>set later. \<not> P y" by blast
    with False have "xs @ [a] = earlier @ x # (later @ [a]) \<and> P x \<and> (\<forall>y\<in>set (later @ [a]). \<not> P y)"
      by simp
    then show ?thesis by blast
  qed
qed

lemma uniques_of_entry:
  assumes "(k, v) \<in> set (uniques_of xs h)"
  shows "find (\<lambda>x. h x = k) (rev xs) = Some v"
proof -
  from assms have "k \<in> fst ` set (uniques_of xs h)" by force
  then have k: "k \<noteq> ''__proto__''" unfolding keys_uniques_of by simp
  from assms distinct_uniques_of [of xs h] have "map_of (uniques_of xs h) k = Some v"
    by simp
  with k show ?thesis by (simp add: map_of_uniques_of)
qed

lemma uniques_of_hash: "(k, v) \<in> set (uniques_of xs h) \<Longrightarrow> h v = k"
  using uniques_of_entry [of k v xs h] by (auto simp: find_Some_iff)

text \<open>\<open>Object.values\<close> lists every value once, whatever the order.\<close>

lemma mset_object_values: "mset (object_values properties) = mset (map snd properties)"
proof -
  let ?index = "\<lambda>(k :: string, v :: 'a). array_index k \<noteq> None"
  have "filter (\<lambda>(k, v). array_index k = None) properties
      = filter (\<lambda>p. \<not> ?index p) properties"
    by (rule filter_cong) auto
  then have "object_values properties
      = map snd (sort_key (\<lambda>(k, v). the (array_index k)) (filter ?index properties)
                 @ filter (\<lambda>p. \<not> ?index p) properties)"
    by (simp only: object_values_def)
  then have "mset (object_values properties)
      = image_mset snd
          (filter_mset ?index (mset properties)
           + filter_mset (\<lambda>p. \<not> ?index p) (mset properties))"
    by (simp only: mset_map mset_append mset_sort mset_filter)
  also have "\<dots> = image_mset snd (mset properties)"
    by (simp only: multiset_partition [symmetric])
  finally show ?thesis by (simp only: mset_map)
qed

lemma set_object_values: "set (object_values properties) = snd ` set properties"
  using mset_object_values [of properties, THEN mset_eq_setD] by simp

lemma object_values_plain:
  assumes "\<forall>(k, v)\<in>set properties. array_index k = None"
  shows "object_values properties = map snd properties"
proof -
  from assms have "filter (\<lambda>(k, v). array_index k \<noteq> None) properties = []"
    by (auto simp: filter_empty_conv)
  moreover from assms have "filter (\<lambda>(k, v). array_index k = None) properties = properties"
    by (auto simp: filter_id_conv)
  ultimately show ?thesis by (simp add: object_values_def)
qed

lemma mset_hashes_dedupe: "mset (map h (dedupe xs h)) = mset (map fst (uniques_of xs h))"
proof -
  have "mset (map h (dedupe xs h)) = image_mset h (image_mset snd (mset (uniques_of xs h)))"
    using mset_object_values [of "uniques_of xs h"] by (simp add: dedupe_def)
  also have "\<dots> = image_mset (\<lambda>p. h (snd p)) (mset (uniques_of xs h))"
    by (simp add: image_mset.compositionality comp_def)
  also have "\<dots> = image_mset fst (mset (uniques_of xs h))"
    by (rule image_mset_cong) (auto dest: uniques_of_hash)
  finally show ?thesis by simp
qed

lemma distinct_hashes_dedupe: "distinct (map h (dedupe xs h))"
  using mset_eq_imp_distinct_iff [OF mset_hashes_dedupe [of h xs]] distinct_uniques_of [of xs h]
  by simp

lemma set_hashes_dedupe: "set (map h (dedupe xs h)) = h ` set xs - {''__proto__''}"
  using mset_eq_setD [OF mset_hashes_dedupe [of h xs]] keys_uniques_of [of xs h] by simp

lemma dedupe_keeps_last:
  assumes "kept \<in> set (dedupe xs h)"
  shows "\<exists>earlier later. xs = earlier @ kept # later \<and> (\<forall>x\<in>set later. h x \<noteq> h kept)"
proof -
  from assms obtain k where k: "(k, kept) \<in> set (uniques_of xs h)"
    by (auto simp: dedupe_def set_object_values)
  then have "h kept = k" by (rule uniques_of_hash)
  with k have "find (\<lambda>x. h x = h kept) (rev xs) = Some kept"
    using uniques_of_entry by fastforce
  from find_rev_last [OF this] show ?thesis by blast
qed

lemma set_dedupe_subset: "set (dedupe xs h) \<subseteq> set xs"
proof
  fix x
  assume "x \<in> set (dedupe xs h)"
  from dedupe_keeps_last [OF this] obtain earlier later where "xs = earlier @ x # later"
    by blast
  then show "x \<in> set xs" by simp
qed

text \<open>
  With the keys of \<open>getTableRelations\<close> the result is in the order in which the keys
  were first met.
\<close>

lemma dedupe_relationHash:
  "dedupe relations relationHash
     = map snd (foldl (\<lambda>uniques r. AList.update (relationHash r) r uniques) [] relations)"
proof -
  have u: "uniques_of relations relationHash
      = foldl (\<lambda>uniques r. AList.update (relationHash r) r uniques) [] relations"
    by (simp add: uniques_of_def assign_def relationHash_plain)
  have "\<forall>(k, v)\<in>set (uniques_of relations relationHash). array_index k = None"
  proof (clarify)
    fix k v
    assume "(k, v) \<in> set (uniques_of relations relationHash)"
    then have "relationHash v = k" by (rule uniques_of_hash)
    with relationHash_plain [of v] show "array_index k = None" by simp
  qed
  then show ?thesis unfolding dedupe_def u [symmetric] by (rule object_values_plain)
qed

lemma set_relationHash_dedupe:
  "set (map relationHash (dedupe relations relationHash)) = set (map relationHash relations)"
proof -
  have "''__proto__'' \<notin> relationHash ` set relations"
    using relationHash_plain by (metis imageE)
  then have "relationHash ` set relations - {''__proto__''} = relationHash ` set relations"
    by simp
  then show ?thesis unfolding set_hashes_dedupe by simp
qed

text \<open>
  Other keys: an index comes first whenever it was met, and \<open>__proto__\<close> leaves no
  property.
\<close>

lemma dedupe_index_keys_first:
  "dedupe [''b'', ''10'', ''9'', ''a'', ''07''] (\<lambda>x. x) = [''9'', ''10'', ''b'', ''a'', ''07'']"
  by (simp add: dedupe_def uniques_of_def assign_def object_values_def array_index_def
      decimal_digit_def decimal_value_def)

lemma dedupe_proto_lost:
  "dedupe [''__proto__'', ''a''] (\<lambda>x. x) = [''a'']"
  by (simp add: dedupe_def uniques_of_def assign_def object_values_def array_index_def
      decimal_digit_def decimal_value_def)

lemma relationHash_eq_iff:
  assumes "\<not> js_includes (referencedTableName r) ''_delete_update''"
    and "\<not> js_includes (referencedTableName r') ''_delete_update''"
  shows "relationHash r = relationHash r' \<longleftrightarrow> relationPair r = relationPair r'"
proof
  assume e: "relationHash r = relationHash r'"
  then have n: "buildTriggerName (referencedTableName r) (tableName r)
      = buildTriggerName (referencedTableName r') (tableName r')"
    by (simp add: relationHash_def)
  from n assms have "length (referencedTableName r) = length (referencedTableName r')"
    by (rule equal_names_equal_parent_lengths)
  with n show "relationPair r = relationPair r'"
    by (simp add: buildTriggerName_def relationPair_def)
next
  assume "relationPair r = relationPair r'"
  then show "relationHash r = relationHash r'"
    by (simp add: relationHash_def relationPair_def)
qed

lemma relationHash_of_pair:
  "relationHash r = (\<lambda>(parent, child). buildTriggerName parent child) (relationPair r)"
  by (simp add: relationHash_def relationPair_def)

text \<open>
  C3 (as amended). The result of \<open>dedupe\<close>, keyed as \<open>getTableRelations\<close> keys it, has
  at most one relation per trigger name, every trigger name of the input appears in it
  exactly once, and the relation kept for a name is the last relation of the input
  with that name. When no referenced table name of the input contains the text
  \<open>_delete_update\<close>, the same holds per pair (referenced table, table).
\<close>

theorem dedupe_by_trigger_name:
  "distinct (map relationHash (dedupe relations relationHash))
   \<and> set (map relationHash (dedupe relations relationHash)) = set (map relationHash relations)
   \<and> (\<forall>kept\<in>set (dedupe relations relationHash).
        \<exists>earlier later. relations = earlier @ kept # later
          \<and> (\<forall>r\<in>set later. relationHash r \<noteq> relationHash kept))
   \<and> ((\<forall>r\<in>set relations. \<not> js_includes (referencedTableName r) ''_delete_update'') \<longrightarrow>
        distinct (map relationPair (dedupe relations relationHash))
        \<and> set (map relationPair (dedupe relations relationHash)) = set (map relationPair relations)
        \<and> (\<forall>kept\<in>set (dedupe relations relationHash).
             \<exists>earlier later. relations = earlier @ kept # later
               \<and> (\<forall>r\<in>set later. relationPair r \<noteq> relationPair kept)))"
proof (intro conjI impI ballI)
  let ?out = "dedupe relations relationHash"
  show "distinct (map relationHash ?out)" by (rule distinct_hashes_dedupe)
  show "set (map relationHash ?out) = set (map relationHash relations)"
    by (rule set_relationHash_dedupe)
  show "\<exists>earlier later. relations = earlier @ kept # later
          \<and> (\<forall>r\<in>set later. relationHash r \<noteq> relationHash kept)"
    if "kept \<in> set ?out" for kept
    using that by (rule dedupe_keeps_last)
  assume plain: "\<forall>r\<in>set relations. \<not> js_includes (referencedTableName r) ''_delete_update''"
  have "distinct (map (\<lambda>(parent, child). buildTriggerName parent child) (map relationPair ?out))"
    using distinct_hashes_dedupe [of relationHash relations]
    by (simp add: relationHash_of_pair [abs_def] comp_def)
  then show "distinct (map relationPair ?out)"
    by (rule distinct_map [THEN iffD1, THEN conjunct1])
  show "set (map relationPair ?out) = set (map relationPair relations)"
  proof
    show "set (map relationPair ?out) \<subseteq> set (map relationPair relations)"
      using set_dedupe_subset [of relations relationHash] by auto
    show "set (map relationPair relations) \<subseteq> set (map relationPair ?out)"
    proof
      fix pair
      assume "pair \<in> set (map relationPair relations)"
      then obtain r where r: "r \<in> set relations" "pair = relationPair r" by auto
      then have "relationHash r \<in> set (map relationHash relations)" by simp
      then have "relationHash r \<in> set (map relationHash ?out)"
        unfolding set_relationHash_dedupe .
      then obtain kept where kept: "kept \<in> set ?out" "relationHash kept = relationHash r"
        by auto
      with set_dedupe_subset [of relations relationHash] have "kept \<in> set relations" by auto
      with plain r(1) kept(2) have "relationPair kept = relationPair r"
        using relationHash_eq_iff by blast
      moreover from kept(1) have "relationPair kept \<in> relationPair ` set ?out" by (rule imageI)
      ultimately show "pair \<in> set (map relationPair ?out)" using r(2) by simp
    qed
  qed
  show "\<exists>earlier later. relations = earlier @ kept # later
          \<and> (\<forall>r\<in>set later. relationPair r \<noteq> relationPair kept)"
    if "kept \<in> set ?out" for kept
  proof -
    from dedupe_keeps_last [OF that] obtain earlier later where
      l: "relations = earlier @ kept # later" "\<forall>r\<in>set later. relationHash r \<noteq> relationHash kept"
      by blast
    from l(2) have "\<forall>r\<in>set later. relationPair r \<noteq> relationPair kept"
      by (auto simp: relationHash_of_pair)
    with l(1) show ?thesis by blast
  qed
qed

theorem dedupe_by_trigger_name_witness:
  "dedupe [ordersToCustomers, itemsToOrders,
           ordersToCustomers\<lparr>columnName := ''billing_customer_id''\<rparr>] relationHash
     = [ordersToCustomers\<lparr>columnName := ''billing_customer_id''\<rparr>, itemsToOrders]
   \<and> distinct (map relationPair
        (dedupe [ordersToCustomers, itemsToOrders,
                 ordersToCustomers\<lparr>columnName := ''billing_customer_id''\<rparr>] relationHash))"
proof -
  let ?relations = "[ordersToCustomers, itemsToOrders,
                     ordersToCustomers\<lparr>columnName := ''billing_customer_id''\<rparr>]"
  have plain: "\<forall>r\<in>set ?relations. \<not> js_includes (referencedTableName r) ''_delete_update''"
    by (simp add: ordersToCustomers_def itemsToOrders_def)
  have "dedupe ?relations relationHash
      = [ordersToCustomers\<lparr>columnName := ''billing_customer_id''\<rparr>, itemsToOrders]"
    by (simp add: dedupe_relationHash relationHash_def buildTriggerName_def
        ordersToCustomers_def itemsToOrders_def)
  moreover from plain dedupe_by_trigger_name [of ?relations]
  have "distinct (map relationPair (dedupe ?relations relationHash))" by blast
  ultimately show ?thesis by blast
qed

text \<open>
  C3 (as stated) fails: two relations with different pairs of tables and the same
  trigger name are merged, and the pair of the first is not in the result.
\<close>

theorem dedupe_merges_colliding_pairs:
  "relationPair collidingFirst \<in> set (map relationPair [collidingFirst, collidingSecond])
   \<and> dedupe [collidingFirst, collidingSecond] relationHash = [collidingSecond]
   \<and> relationPair collidingFirst
       \<notin> set (map relationPair (dedupe [collidingFirst, collidingSecond] relationHash))"
  by (simp add: dedupe_relationHash relationHash_def relationPair_def buildTriggerName_def
      collidingFirst_def collidingSecond_def)

section \<open>Properties of the decision engine\<close>

lemma getNextRelation_closed_form:
  "getNextRelation u sq db queue =
     (case dropWhile (\<lambda>x. triggerExists u sq db x = Inr True) queue of
        [] \<Rightarrow> Inr None
      | x # rest \<Rightarrow> (case triggerExists u sq db x of Inl e \<Rightarrow> Inl e | Inr _ \<Rightarrow> Inr (Some x)),
      dropWhile (\<lambda>x. triggerExists u sq db x = Inr True) queue,
      map (existTriggerStatement u)
        (takeWhile (\<lambda>x. triggerExists u sq db x = Inr True) queue
         @ take 1 (dropWhile (\<lambda>x. triggerExists u sq db x = Inr True) queue)))"
proof (induction queue)
  case Nil
  then show ?case by simp
next
  case (Cons relation rest)
  show ?case
  proof (cases "triggerExists u sq db relation")
    case (Inl e)
    then show ?thesis by simp
  next
    case (Inr exists)
    with Cons.IH show ?thesis by (cases exists) simp_all
  qed
qed

lemma dropWhile_head_not:
  "dropWhile P xs = x # rest \<Longrightarrow> \<not> P x"
  using hd_dropWhile [of P xs] by auto

lemma askForNextRelation_result:
  "askForNextRelation u sq db st =
     (case dropWhile (\<lambda>x. triggerExists u sq db x = Inr True) (tableRelations st) of
        [] \<Rightarrow>
          Inr (st\<lparr>tableRelations := [], closed := True,
                  events := events st
                    @ map (Sql \<circ> existTriggerStatement u)
                        (takeWhile (\<lambda>x. triggerExists u sq db x = Inr True) (tableRelations st))
                    @ [Info ''There are no more relations to process. Exiting...'']\<rparr>)
      | x # rest \<Rightarrow>
          (case triggerExists u sq db x of
             Inl e \<Rightarrow> Inl e
           | Inr _ \<Rightarrow>
               Inr (st\<lparr>tableRelations := x # rest, prompt := relationPrompt x,
                       events := events st
                         @ map (Sql \<circ> existTriggerStatement u)
                             (takeWhile (\<lambda>x. triggerExists u sq db x = Inr True)
                                (tableRelations st) @ [x])
                         @ [Prompt (relationPrompt x)]\<rparr>)))"
proof -
  define remaining where
    "remaining = dropWhile (\<lambda>x. triggerExists u sq db x = Inr True) (tableRelations st)"
  define dropped where
    "dropped = takeWhile (\<lambda>x. triggerExists u sq db x = Inr True) (tableRelations st)"
  have g: "getNextRelation u sq db (tableRelations st) =
     (case remaining of
        [] \<Rightarrow> Inr None
      | x # rest \<Rightarrow> (case triggerExists u sq db x of Inl e \<Rightarrow> Inl e | Inr _ \<Rightarrow> Inr (Some x)),
      remaining,
      map (existTriggerStatement u) (dropped @ take 1 remaining))"
    unfolding remaining_def dropped_def by (rule getNextRelation_closed_form)
  have "askForNextRelation u sq db st =
     (case remaining of
        [] \<Rightarrow>
          Inr (st\<lparr>tableRelations := [], closed := True,
                  events := events st
                    @ map (Sql \<circ> existTriggerStatement u) dropped
                    @ [Info ''There are no more relations to process. Exiting...'']\<rparr>)
      | x # rest \<Rightarrow>
          (case triggerExists u sq db x of
             Inl e \<Rightarrow> Inl e
           | Inr _ \<Rightarrow>
               Inr (st\<lparr>tableRelations := x # rest, prompt := relationPrompt x,
                       events := events st
                         @ map (Sql \<circ> existTriggerStatement u) (dropped @ [x])
                         @ [Prompt (relationPrompt x)]\<rparr>)))"
    by (cases remaining)
      (simp_all add: askForNextRelation_def g rl_close_def rl_prompt_def split: sum.splits)
  then show ?thesis unfolding remaining_def dropped_def .
qed

text \<open>
  C8. Whatever the pending queue, \<open>askForNextRelation\<close> checks the existence of the
  head's trigger before it writes a prompt, and removes from the front of the queue
  every relation whose check says that the trigger exists, without a prompt for it.
  It stops at the first relation whose check does not say so: when there is none the
  queue is empty and the interface is closed; when that relation's check says that
  there is no trigger, it stays the head and the prompt names it; when its check
  fails, the handler is rejected with the error. So the relation a prompt names never
  has a trigger that the check reports.
\<close>

theorem skip_if_covered:
  "tableRelations st =
      takeWhile (\<lambda>x. triggerExists u sq db x = Inr True) (tableRelations st)
      @ dropWhile (\<lambda>x. triggerExists u sq db x = Inr True) (tableRelations st)
   \<and> (\<forall>x\<in>set (takeWhile (\<lambda>x. triggerExists u sq db x = Inr True) (tableRelations st)).
        triggerExists u sq db x = Inr True)
   \<and> (case dropWhile (\<lambda>x. triggerExists u sq db x = Inr True) (tableRelations st) of
        [] \<Rightarrow>
          askForNextRelation u sq db st =
            Inr (st\<lparr>tableRelations := [], closed := True,
                    events := events st
                      @ map (Sql \<circ> existTriggerStatement u)
                          (takeWhile (\<lambda>x. triggerExists u sq db x = Inr True) (tableRelations st))
                      @ [Info ''There are no more relations to process. Exiting...'']\<rparr>)
      | x # rest \<Rightarrow>
          (case triggerExists u sq db x of
             Inl e \<Rightarrow> askForNextRelation u sq db st = Inl e
           | Inr exists \<Rightarrow>
               \<not> exists
               \<and> askForNextRelation u sq db st =
                   Inr (st\<lparr>tableRelations := x # rest, prompt := relationPrompt x,
                           events := events st
                             @ map (Sql \<circ> existTriggerStatement u)
                                 (takeWhile (\<lambda>x. triggerExists u sq db x = Inr True)
                                    (tableRelations st) @ [x])
                             @ [Prompt (relationPrompt x)]\<rparr>)))"
proof (intro conjI)
  let ?covered = "\<lambda>x. triggerExists u sq db x = Inr True"
  show "tableRelations st
      = takeWhile ?covered (tableRelations st) @ dropWhile ?covered (tableRelations st)"
    by simp
  show "\<forall>x\<in>set (takeWhile ?covered (tableRelations st)). triggerExists u sq db x = Inr True"
    by (auto dest: set_takeWhileD)
  show "case dropWhile ?covered (tableRelations st) of
        [] \<Rightarrow>
          askForNextRelation u sq db st =
            Inr (st\<lparr>tableRelations := [], closed := True,
                    events := events st
                      @ map (Sql \<circ> existTriggerStatement u)
                          (takeWhile ?covered (tableRelations st))
                      @ [Info ''There are no more relations to process. Exiting...'']\<rparr>)
      | x # rest \<Rightarrow>
          (case triggerExists u sq db x of
             Inl e \<Rightarrow> askForNextRelation u sq db st = Inl e
           | Inr exists \<Rightarrow>
               \<not> exists
               \<and> askForNextRelation u sq db st =
                   Inr (st\<lparr>tableRelations := x # rest, prompt := relationPrompt x,
                           events := events st
                             @ map (Sql \<circ> existTriggerStatement u)
                                 (takeWhile ?covered (tableRelations st) @ [x])
                             @ [Prompt (relationPrompt x)]\<rparr>))"
  proof -
    define remaining where "remaining = dropWhile ?covered (tableRelations st)"
    define dropped where "dropped = takeWhile ?covered (tableRelations st)"
    note result = askForNextRelation_result [of u sq db st, folded remaining_def dropped_def]
    have "case remaining of
        [] \<Rightarrow>
          askForNextRelation u sq db st =
            Inr (st\<lparr>tableRelations := [], closed := True,
                    events := events st
                      @ map (Sql \<circ> existTriggerStatement u) dropped
                      @ [Info ''There are no more relations to process. Exiting...'']\<rparr>)
      | x # rest \<Rightarrow>
          (case triggerExists u sq db x of
             Inl e \<Rightarrow> askForNextRelation u sq db st = Inl e
           | Inr exists \<Rightarrow>
               \<not> exists
               \<and> askForNextRelation u sq db st =
                   Inr (st\<lparr>tableRelations := x # rest, prompt := relationPrompt x,
                           events := events st
                             @ map (Sql \<circ> existTriggerStatement u) (dropped @ [x])
                             @ [Prompt (relationPrompt x)]\<rparr>))"
    proof (cases remaining)
      case Nil
      then show ?thesis by (simp add: result)
    next
      case (Cons x rest)
      then have "\<not> ?covered x" unfolding remaining_def by (rule dropWhile_head_not)
      with Cons show ?thesis by (auto simp: result split: sum.splits)
    qed
    then show ?thesis unfolding remaining_def dropped_def .
  qed
qed

theorem skip_if_covered_witness:
  "askForNextRelation triggerUtils triggerSequelize [''on_customers_delete_update_orders'']
     (up\<lparr>tableRelations := [ordersToCustomers, itemsToOrders], scanned := True\<rparr>)
   = Inr (up\<lparr>tableRelations := [itemsToOrders], scanned := True,
             prompt := relationPrompt itemsToOrders,
             events := events up
               @ [Sql ''EXISTS on_customers_delete_update_orders'',
                  Sql ''EXISTS on_orders_delete_update_items'',
                  Prompt (relationPrompt itemsToOrders)]\<rparr>)"
proof -
  let ?db = "[''on_customers_delete_update_orders'']"
  have 1: "triggerExists triggerUtils triggerSequelize ?db ordersToCustomers = Inr True"
    by (simp add: triggerExists_def existTriggerStatement_def triggerUtils_def
        triggerSequelize_def ordersToCustomers_def buildTriggerName_def)
  have 2: "triggerExists triggerUtils triggerSequelize ?db itemsToOrders = Inr False"
    by (simp add: triggerExists_def existTriggerStatement_def triggerUtils_def
        triggerSequelize_def itemsToOrders_def buildTriggerName_def)
  have 3: "existTriggerStatement triggerUtils ordersToCustomers
             = ''EXISTS on_customers_delete_update_orders''"
    "existTriggerStatement triggerUtils itemsToOrders = ''EXISTS on_orders_delete_update_items''"
    by (simp_all add: existTriggerStatement_def triggerUtils_def ordersToCustomers_def
        itemsToOrders_def buildTriggerName_def)
  show ?thesis
    using skip_if_covered
      [of "up\<lparr>tableRelations := [ordersToCustomers, itemsToOrders], scanned := True\<rparr>"
          triggerUtils triggerSequelize ?db]
    by (simp add: 1 2 3)
qed

lemma on_line_cascade:
  assumes "scanned st" and "tableRelations st = relation # rest" and "trim input = ''c''"
  shows "on_line u options sq input db st =
     (askForNextRelation u sq
        (snd (query sq
                (buildCreateTriggerStatement u
                   (referencedTableName relation) (referencedColumnName relation)
                   (tableName relation) (columnName relation)) db))
        (st\<lparr>tableRelations := rest,
            events := events st @
              [Sql (buildCreateTriggerStatement u
                      (referencedTableName relation) (referencedColumnName relation)
                      (tableName relation) (columnName relation)),
               case fst (query sq
                           (buildCreateTriggerStatement u
                              (referencedTableName relation) (referencedColumnName relation)
                              (tableName relation) (columnName relation)) db) of
                 Inr _ \<Rightarrow> Info (createdMessage relation)
               | Inl e \<Rightarrow> Error e]\<rparr>),
      snd (query sq
             (buildCreateTriggerStatement u
                (referencedTableName relation) (referencedColumnName relation)
                (tableName relation) (columnName relation)) db))"
  using assms by (simp add: on_line_def Let_def case_prod_beta)

text \<open>
  C9. On the line \<open>c\<close>, after a scan and with a relation at the head of the queue, the
  session passes the create-trigger statement of that relation to \<open>sequelize.query\<close>
  and reports its success or logs its error. In both cases the head is removed and the
  session goes on as \<open>askForNextRelation\<close> does on the rest of the queue, in the state
  the statement left: it drops the relations whose trigger exists and writes the prompt
  of the first that has none, and it closes the interface only when none is left. (A
  failing existence check rejects the handler; a failing create-trigger statement does
  not.)
\<close>

theorem cascade_choice_advances:
  assumes "scanned st" and "tableRelations st = relation # rest" and "trim input = ''c''"
  shows
    "let triggerStatement =
           buildCreateTriggerStatement u
             (referencedTableName relation) (referencedColumnName relation)
             (tableName relation) (columnName relation);
         r = fst (query sq triggerStatement db);
         db1 = snd (query sq triggerStatement db);
         report = (case r of Inr _ \<Rightarrow> Info (createdMessage relation) | Inl e \<Rightarrow> Error e);
         dropped = takeWhile (\<lambda>x. triggerExists u sq db1 x = Inr True) rest;
         remaining = dropWhile (\<lambda>x. triggerExists u sq db1 x = Inr True) rest
     in snd (on_line u options sq input db st) = db1
        \<and> (case remaining of
             [] \<Rightarrow>
               fst (on_line u options sq input db st) =
                 Inr (st\<lparr>tableRelations := [], closed := True,
                         events := events st @ [Sql triggerStatement, report]
                           @ map (Sql \<circ> existTriggerStatement u) dropped
                           @ [Info ''There are no more relations to process. Exiting...'']\<rparr>)
           | x # later \<Rightarrow>
               (case triggerExists u sq db1 x of
                  Inl e \<Rightarrow> fst (on_line u options sq input db st) = Inl e
                | Inr _ \<Rightarrow>
                    fst (on_line u options sq input db st) =
                      Inr (st\<lparr>tableRelations := x # later, prompt := relationPrompt x,
                              events := events st @ [Sql triggerStatement, report]
                                @ map (Sql \<circ> existTriggerStatement u) (dropped @ [x])
                                @ [Prompt (relationPrompt x)]\<rparr>)))"
proof -
  define triggerStatement where
    "triggerStatement =
       buildCreateTriggerStatement u
         (referencedTableName relation) (referencedColumnName relation)
         (tableName relation) (columnName relation)"
  define db1 where "db1 = snd (query sq triggerStatement db)"
  define report where
    "report = (case fst (query sq triggerStatement db) of
                 Inr _ \<Rightarrow> Info (createdMessage relation)
               | Inl e \<Rightarrow> Error e)"
  define remaining where
    "remaining = dropWhile (\<lambda>x. triggerExists u sq db1 x = Inr True) rest"
  define dropped where
    "dropped = takeWhile (\<lambda>x. triggerExists u sq db1 x = Inr True) rest"
  have step: "on_line u options sq input db st =
      (askForNextRelation u sq db1
         (st\<lparr>tableRelations := rest, events := events st @ [Sql triggerStatement, report]\<rparr>),
       db1)"
    unfolding report_def db1_def triggerStatement_def
    using assms by (rule on_line_cascade)
  note result =
    askForNextRelation_result
      [of u sq db1
          "st\<lparr>tableRelations := rest, events := events st @ [Sql triggerStatement, report]\<rparr>",
       simplified, folded remaining_def dropped_def]
  have "snd (on_line u options sq input db st) = db1
        \<and> (case remaining of
             [] \<Rightarrow>
               fst (on_line u options sq input db st) =
                 Inr (st\<lparr>tableRelations := [], closed := True,
                         events := events st @ [Sql triggerStatement, report]
                           @ map (Sql \<circ> existTriggerStatement u) dropped
                           @ [Info ''There are no more relations to process. Exiting...'']\<rparr>)
           | x # later \<Rightarrow>
               (case triggerExists u sq db1 x of
                  Inl e \<Rightarrow> fst (on_line u options sq input db st) = Inl e
                | Inr _ \<Rightarrow>
                    fst (on_line u options sq input db st) =
                      Inr (st\<lparr>tableRelations := x # later, prompt := relationPrompt x,
                              events := events st @ [Sql triggerStatement, report]
                                @ map (Sql \<circ> existTriggerStatement u) (dropped @ [x])
                                @ [Prompt (relationPrompt x)]\<rparr>)))"
    by (cases remaining) (auto simp: step result dropped_def split: sum.splits)
  then show ?thesis
    unfolding Let_def remaining_def dropped_def report_def db1_def triggerStatement_def .
qed

theorem cascade_choice_advances_witness:
  "on_line triggerUtils noFilter triggerSequelize ''c'' [''on_customers_delete_update_orders'']
     (up\<lparr>tableRelations := [ordersToCustomers, itemsToOrders], scanned := True\<rparr>)
   = (Inr (up\<lparr>tableRelations := [itemsToOrders], scanned := True,
              prompt := relationPrompt itemsToOrders,
              events := events up
                @ [Sql ''CREATE on_customers_delete_update_orders'',
                   Error ''ER_TRG_ALREADY_EXISTS'',
                   Sql ''EXISTS on_orders_delete_update_items'',
                   Prompt (relationPrompt itemsToOrders)]\<rparr>),
      [''on_customers_delete_update_orders''])"
proof -
  let ?db = "[''on_customers_delete_update_orders'']"
  let ?st = "up\<lparr>tableRelations := [ordersToCustomers, itemsToOrders], scanned := True\<rparr>"
  have c: "buildCreateTriggerStatement triggerUtils
             (referencedTableName ordersToCustomers) (referencedColumnName ordersToCustomers)
             (tableName ordersToCustomers) (columnName ordersToCustomers)
           = ''CREATE on_customers_delete_update_orders''"
    by (simp add: triggerUtils_def ordersToCustomers_def buildTriggerName_def)
  have q: "query triggerSequelize ''CREATE on_customers_delete_update_orders'' ?db
           = (Inl ''ER_TRG_ALREADY_EXISTS'', ?db)"
    by (simp add: triggerSequelize_def)
  have 2: "triggerExists triggerUtils triggerSequelize ?db itemsToOrders = Inr False"
    by (simp add: triggerExists_def existTriggerStatement_def triggerUtils_def
        triggerSequelize_def itemsToOrders_def buildTriggerName_def)
  have 3: "existTriggerStatement triggerUtils itemsToOrders = ''EXISTS on_orders_delete_update_items''"
    by (simp add: existTriggerStatement_def triggerUtils_def itemsToOrders_def
        buildTriggerName_def)
  have s: "scanned ?st" and t: "tableRelations ?st = ordersToCustomers # [itemsToOrders]"
    and i: "trim ''c'' = ''c''"
    by (simp_all add: trim_def js_white_space_def)
  show ?thesis
    using cascade_choice_advances [OF s t i, of triggerUtils triggerSequelize ?db noFilter]
    by (simp add: c q 2 3 prod_eq_iff Let_def)
qed

text \<open>
  The scenario of the spec, on the example database. First run: the scan is confirmed,
  the relation from \<open>orders\<close> to \<open>customers\<close> is offered, \<open>c\<close> creates the trigger
  \<open>on_customers_delete_update_orders\<close>, the queue is empty and the session closes.
  Second run, on the database the first one left: the existence check skips the
  relation, and the session closes without a prompt for it.
\<close>

lemma scenario_first_run:
  "on_lines triggerUtils noFilter triggerSequelize [''y'', ''c''] [] up
   = (Inr (up\<lparr>tableRelations := [], scanned := True,
              prompt := relationPrompt ordersToCustomers, closed := True,
              events := events up
                @ [Sql ''EXISTS on_customers_delete_update_orders'',
                   Prompt (relationPrompt ordersToCustomers),
                   Sql ''CREATE on_customers_delete_update_orders'',
                   Info (createdMessage ordersToCustomers),
                   Info ''There are no more relations to process. Exiting...'']\<rparr>),
      [''on_customers_delete_update_orders''])"
  by (simp add: on_line_def getTableRelations_def dedupe_relationHash relationHash_def
      askForNextRelation_def triggerExists_def existTriggerStatement_def rl_close_def
      rl_prompt_def trim_def js_white_space_def triggerUtils_def triggerSequelize_def
      noFilter_def ordersToCustomers_def buildTriggerName_def up_def Let_def)

lemma scenario_second_run:
  "on_lines triggerUtils noFilter triggerSequelize [''y''] [''on_customers_delete_update_orders''] up
   = (Inr (up\<lparr>tableRelations := [], scanned := True, closed := True,
              events := events up
                @ [Sql ''EXISTS on_customers_delete_update_orders'',
                   Info ''There are no more relations to process. Exiting...'']\<rparr>),
      [''on_customers_delete_update_orders''])"
  by (simp add: on_line_def getTableRelations_def dedupe_relationHash relationHash_def
      askForNextRelation_def triggerExists_def existTriggerStatement_def rl_close_def
      rl_prompt_def trim_def js_white_space_def triggerUtils_def triggerSequelize_def
      noFilter_def ordersToCustomers_def buildTriggerName_def up_def Let_def)

text \<open>
  No other path of the handler offers a relation: when a line changes the prompt, the
  new prompt names the head of the queue, and the existence check of that head, in the
  state the line left, says that it has no trigger.
\<close>

lemma askForNextRelation_Inr:
  assumes "askForNextRelation u sq db st = Inr st'"
  shows "(tableRelations st' = [] \<and> closed st' \<and> prompt st' = prompt st)
       \<or> (\<exists>x rest. tableRelations st' = x # rest \<and> prompt st' = relationPrompt x
             \<and> triggerExists u sq db x = Inr False \<and> closed st' = closed st)"
proof -
  define remaining where
    "remaining = dropWhile (\<lambda>x. triggerExists u sq db x = Inr True) (tableRelations st)"
  note result = askForNextRelation_result [of u sq db st, folded remaining_def]
  show ?thesis
  proof (cases remaining)
    case Nil
    with result assms show ?thesis by auto
  next
    case (Cons x rest)
    then have "triggerExists u sq db x \<noteq> Inr True"
      unfolding remaining_def by (rule dropWhile_head_not)
    with Cons result assms show ?thesis
      by (cases "triggerExists u sq db x") auto
  qed
qed

lemma new_prompt_is_checked:
  assumes "on_line u options sq input db st = (Inr st', db')" and "prompt st' \<noteq> prompt st"
  shows "\<exists>x rest. tableRelations st' = x # rest \<and> prompt st' = relationPrompt x
           \<and> triggerExists u sq db' x = Inr False"
proof -
  have ask: "\<exists>x rest. tableRelations st' = x # rest \<and> prompt st' = relationPrompt x
           \<and> triggerExists u sq db' x = Inr False"
    if "askForNextRelation u sq db' st0 = Inr st'" and "prompt st0 = prompt st" for st0
    using askForNextRelation_Inr [OF that(1)] that(2) assms(2) by auto
  from assms(1) consider
      (same) "prompt st' = prompt st"
    | (asked) st0 where "askForNextRelation u sq db' st0 = Inr st'" "prompt st0 = prompt st"
    by (auto simp: on_line_def Let_def case_prod_beta rl_prompt_def rl_close_def console_def
        split: if_splits sum.splits list.splits)
  then show ?thesis
  proof cases
    case same
    with assms(2) show ?thesis by simp
  next
    case asked
    then show ?thesis by (rule ask)
  qed
qed

end
